theory Spec2Isabelle
  imports Complex_Main "HOL-Library.Word" "HOL-Library.Monad_Syntax"
begin

section \<open>Data model\<close>

text \<open>
  The client of \<^verbatim>\<open>api_client.py\<close> and \<^verbatim>\<open>workflows.py\<close>. The remote server and
  the network are a transport function that the model takes as a parameter; the local
  file system is a partial map from paths to files.
\<close>

type_synonym byte = "8 word"

text \<open>Values that \<^verbatim>\<open>response.json()\<close> produces. \<open>JNull\<close> is Python's \<^verbatim>\<open>None\<close>; an
  object is the parsed dict as an association list.\<close>

datatype jval =
    JNull
  | JBool bool
  | JInt int
  | JStr string
  | JArr "jval list"
  | JObj "(string \<times> jval) list"

text \<open>The exceptions the modelled code can raise or let through.
  \<open>ConnectionError\<close>, \<open>HTTPError\<close> and \<open>JSONDecodeError\<close> are subclasses of
  \<^verbatim>\<open>requests.exceptions.RequestException\<close> (the last one since requests 2.27);
  \<open>TokenRefreshFailed\<close> is the plain \<^verbatim>\<open>Exception("Token refresh failed")\<close>;
  \<open>RuntimeError\<close> carries its message.\<close>

datatype exc =
    FileNotFoundError
  | ConnectionError
  | HTTPError
  | JSONDecodeError
  | AttributeError
  | ZeroDivisionError
  | OverflowError
  | TokenRefreshFailed
  | RuntimeError string

fun is_RequestException :: "exc \<Rightarrow> bool" where
  "is_RequestException ConnectionError = True"
| "is_RequestException HTTPError = True"
| "is_RequestException JSONDecodeError = True"
| "is_RequestException _ = False"

text \<open>A response: its status code and its body as \<^verbatim>\<open>json()\<close> would parse it
  (\<open>None\<close> when the body is not JSON).\<close>

record response =
  status_code :: int
  json_body :: "jval option"

text \<open>The keyword arguments the modelled calls pass to the session.\<close>

datatype body = Multipart string "byte list" string

record kwargs =
  kw_headers :: "(string \<times> string) list"
  kw_data :: "body option"
  kw_params :: "(string \<times> string) list"
  kw_json :: "jval option"

definition no_kwargs :: kwargs where
  "no_kwargs = \<lparr>kw_headers = [], kw_data = None, kw_params = [], kw_json = None\<rparr>"

text \<open>What \<^verbatim>\<open>requests.Session.request\<close> puts on the wire: the call's method, URL and
  options together with the session headers of that moment.\<close>

record wire_request =
  w_method :: string
  w_url :: string
  w_kwargs :: kwargs
  w_headers :: "string \<rightharpoonup> jval"

text \<open>A call of \<^verbatim>\<open>TokenRefreshSession.request\<close>, as a mock of the session would
  record it.\<close>

record session_call =
  c_method :: string
  c_url :: string
  c_kwargs :: kwargs

text \<open>The session: its fields \<^verbatim>\<open>api_server_url\<close> and \<^verbatim>\<open>headers\<close>, the state of the
  world behind the transport, and two logs that the code does not keep: the requests
  sent by \<^verbatim>\<open>super().request\<close> and the calls of \<^verbatim>\<open>request\<close>.\<close>

record 'w session =
  api_server_url :: string
  headers :: "string \<rightharpoonup> jval"
  world :: 'w
  wire :: "wire_request list"
  calls :: "session_call list"

type_synonym 'w transport = "'w \<Rightarrow> wire_request \<Rightarrow> (exc + response) \<times> 'w"

section \<open>Helpers of the Python runtime and of requests\<close>

text \<open>\<^verbatim>\<open>str(n)\<close> on integers.\<close>

fun str_nat :: "nat \<Rightarrow> string" where
  "str_nat n =
     (if n < 10 then [''0123456789'' ! n]
      else str_nat (n div 10) @ [''0123456789'' ! (n mod 10)])"

declare str_nat.simps [simp del]

definition str_int :: "int \<Rightarrow> string" where
  "str_int i = (if i < 0 then CHR ''-'' # str_nat (nat (- i)) else str_nat (nat i))"

text \<open>\<^verbatim>\<open>response.json()\<close>: raises when the body is not JSON.\<close>

definition json :: "response \<Rightarrow> exc + jval" where
  "json r = (case json_body r of None \<Rightarrow> Inl JSONDecodeError | Some j \<Rightarrow> Inr j)"

text \<open>\<^verbatim>\<open>d.get(key)\<close>: on a dict the value or \<^verbatim>\<open>None\<close>; anything else has no
  \<^verbatim>\<open>get\<close>.\<close>

fun py_get :: "jval \<Rightarrow> string \<Rightarrow> exc + jval" where
  "py_get (JObj kvs) k = (case map_of kvs k of None \<Rightarrow> Inr JNull | Some v \<Rightarrow> Inr v)"
| "py_get _ k = Inl AttributeError"

text \<open>\<^verbatim>\<open>response.raise_for_status()\<close> raises on 4xx and 5xx only.\<close>

definition raise_for_status :: "response \<Rightarrow> exc + unit" where
  "raise_for_status r =
     (if 400 \<le> status_code r \<and> status_code r < 600 then Inl HTTPError else Inr ())"

text \<open>The truth value of a response is \<^verbatim>\<open>response.ok\<close>.\<close>

definition ok :: "response \<Rightarrow> bool" where
  "ok r = (\<not> (400 \<le> status_code r \<and> status_code r < 600))"

subsection \<open>True division of integers and \<^verbatim>\<open>math.ceil\<close>\<close>

text \<open>
  \<^verbatim>\<open>a / b\<close> on Python integers is the IEEE 754 double nearest to the exact quotient, ties
  to the even mantissa; it raises \<^verbatim>\<open>ZeroDivisionError\<close> for \<open>b = 0\<close> and
  \<^verbatim>\<open>OverflowError\<close> when the rounded quotient does not fit a double. A finite double that
  is not negative is kept as a mantissa and an exponent: \<open>PyFloat m e\<close> is \<open>m * 2 ^ e\<close>.
\<close>

datatype pyfloat = PyFloat nat int

text \<open>The integer nearest to \<open>n / d\<close>, ties to even.\<close>

definition round_half_even :: "nat \<Rightarrow> nat \<Rightarrow> nat" where
  "round_half_even n d =
     (let q = n div d; r = n mod d
      in if 2 * r < d then q
         else if d < 2 * r then q + 1
         else if even q then q else q + 1)"

text \<open>The least \<open>t' \<ge> t\<close> with \<open>2 ^ 52 \<le> a * 2 ^ t' / b\<close>, and the least \<open>e' \<ge> e\<close> with
  \<open>a / (b * 2 ^ e') < 2 ^ 53\<close>: the scalings that bring the quotient to a mantissa of 53
  bits.\<close>

function scale_up :: "nat \<Rightarrow> nat \<Rightarrow> nat \<Rightarrow> nat" where
  "scale_up a b t = (if a = 0 \<or> 2 ^ 52 * b \<le> a * 2 ^ t then t else scale_up a b (t + 1))"
  by pat_completeness auto
termination
proof (relation "measure (\<lambda>(a, b, t). 2 ^ 52 * b - a * 2 ^ t)", goal_cases)
  case 1
  show ?case by simp
next
  case (2 a b t)
  then have lt: "a * 2 ^ t < 2 ^ 52 * b" and pos: "0 < a" by auto
  from pos have "a * 2 ^ t < a * 2 ^ (t + 1)" by simp
  with lt have "2 ^ 52 * b - a * 2 ^ (t + 1) < 2 ^ 52 * b - a * 2 ^ t"
    by (rule diff_less_mono2 [rotated])
  then show ?case by simp
qed

declare scale_up.simps [simp del]

function scale_down :: "nat \<Rightarrow> nat \<Rightarrow> nat \<Rightarrow> nat" where
  "scale_down a b e = (if b = 0 \<or> a < 2 ^ 53 * b * 2 ^ e then e else scale_down a b (e + 1))"
  by pat_completeness auto
termination
proof (relation "measure (\<lambda>(a, b, e). a + 1 - 2 ^ 53 * b * 2 ^ e)", goal_cases)
  case 1
  show ?case by simp
next
  case (2 a b e)
  then have le: "2 ^ 53 * b * 2 ^ e < a + 1" and pos: "0 < b" by auto
  from pos have "2 ^ 53 * b * 2 ^ e < 2 ^ 53 * b * 2 ^ (e + 1)" by simp
  with le have "a + 1 - 2 ^ 53 * b * 2 ^ (e + 1) < a + 1 - 2 ^ 53 * b * 2 ^ e"
    by (rule diff_less_mono2 [rotated])
  then show ?case by simp
qed

declare scale_down.simps [simp del]

text \<open>\<^verbatim>\<open>a / b\<close>. Below \<open>2 ^ 53\<close> the quotient is scaled up to 53 bits, but by no more than
  \<open>2 ^ 1074\<close> (the subnormal doubles share that exponent); from \<open>2 ^ 53\<close> on it is scaled
  down.\<close>

definition py_truediv :: "nat \<Rightarrow> nat \<Rightarrow> exc + pyfloat" where
  "py_truediv a b =
     (if b = 0 then Inl ZeroDivisionError
      else if a = 0 then Inr (PyFloat 0 0)
      else if a < 2 ^ 53 * b then
        (let t = min (scale_up a b 0) 1074
         in Inr (PyFloat (round_half_even (a * 2 ^ t) b) (- int t)))
      else
        (let e = scale_down a b 0; m = round_half_even a (b * 2 ^ e)
         in if 2 ^ 1024 \<le> m * 2 ^ e then Inl OverflowError else Inr (PyFloat m (int e))))"

text \<open>\<^verbatim>\<open>math.ceil\<close> on such a double: an exact integer.\<close>

fun math_ceil :: "pyfloat \<Rightarrow> nat" where
  "math_ceil (PyFloat m e) =
     (if 0 \<le> e then m * 2 ^ nat e else (m + 2 ^ nat (- e) - 1) div 2 ^ nat (- e))"

text \<open>\<^verbatim>\<open>math.ceil(a / b)\<close>.\<close>

definition py_ceil_truediv :: "nat \<Rightarrow> nat \<Rightarrow> exc + nat" where
  "py_ceil_truediv a b = (case py_truediv a b of Inl e \<Rightarrow> Inl e | Inr x \<Rightarrow> Inr (math_ceil x))"

section \<open>TokenRefreshSession\<close>

text \<open>\<^verbatim>\<open>super().request(method, url, **kwargs)\<close>: one request on the wire, answered by
  the transport with a response or an exception.\<close>

definition super_request ::
  "'w transport \<Rightarrow> string \<Rightarrow> string \<Rightarrow> kwargs \<Rightarrow> 'w session \<Rightarrow> (exc + response) \<times> 'w session" where
  "super_request T method url kw s =
     (let req = \<lparr>w_method = method, w_url = url, w_kwargs = kw, w_headers = headers s\<rparr>;
          (out, w') = T (world s) req
      in (out, s\<lparr>world := w', wire := wire s @ [req]\<rparr>))"

definition log_call :: "string \<Rightarrow> string \<Rightarrow> kwargs \<Rightarrow> 'w session \<Rightarrow> 'w session" where
  "log_call method url kw s =
     s\<lparr>calls := calls s @ [\<lparr>c_method = method, c_url = url, c_kwargs = kw\<rparr>]\<rparr>"

definition refresh_url :: "'w session \<Rightarrow> string" where
  "refresh_url s = api_server_url s @ ''/auth/refresh''"

text \<open>The \<^verbatim>\<open>except RequestException\<close> clause of \<^verbatim>\<open>_refresh_token\<close>: a
  RequestException becomes the result \<^verbatim>\<open>False\<close>, any other exception goes on.\<close>

definition refresh_except :: "exc \<Rightarrow> 'w session \<Rightarrow> (exc + bool) \<times> 'w session" where
  "refresh_except e s = (if is_RequestException e then (Inr False, s) else (Inl e, s))"

text \<open>The body of the \<^verbatim>\<open>try\<close> of \<^verbatim>\<open>_refresh_token\<close> after \<^verbatim>\<open>self.get(refresh_url)\<close>
  has come back with \<open>g\<close>.\<close>

definition refresh_finish :: "(exc + response) \<Rightarrow> 'w session \<Rightarrow> (exc + bool) \<times> 'w session" where
  "refresh_finish g s =
     (case g of
        Inl e \<Rightarrow> refresh_except e s
      | Inr response \<Rightarrow>
          (case raise_for_status response of
             Inl e \<Rightarrow> refresh_except e s
           | Inr _ \<Rightarrow>
               (case json response of
                  Inl e \<Rightarrow> refresh_except e s
                | Inr j \<Rightarrow>
                    (case py_get j ''new_access_token'' of
                       Inl e \<Rightarrow> refresh_except e s
                     | Inr new_access_token \<Rightarrow>
                         (Inr True,
                          s\<lparr>headers := (headers s)(''x-openrelik-access-token'' \<mapsto> new_access_token)\<rparr>)))))"

text \<open>
  \<^verbatim>\<open>TokenRefreshSession.request\<close>. It and \<^verbatim>\<open>_refresh_token\<close> call each other
  (\<^verbatim>\<open>self.get\<close> is \<^verbatim>\<open>self.request("GET", ...)\<close>), with no bound on the depth, so the
  function is partial: \<open>None\<close> is a call that never returns. The body of
  \<^verbatim>\<open>_refresh_token\<close> stands inline here; \<open>refresh_token\<close> below names it, and
  \<open>request_unfold\<close> gives the equation in the shape of the source.
\<close>

partial_function (option) request ::
  "'w transport \<Rightarrow> string \<Rightarrow> string \<Rightarrow> kwargs \<Rightarrow> 'w session \<Rightarrow> ((exc + response) \<times> 'w session) option" where
  "request T method url kw s =
     (case super_request T method url kw (log_call method url kw s) of
        (Inl e, s1) \<Rightarrow> Some (Inl e, s1)
      | (Inr response, s1) \<Rightarrow>
          if status_code response = 401 then
            Option.bind (request T ''GET'' (refresh_url s1) no_kwargs s1)
              (\<lambda>(g, s2).
                 case refresh_finish g s2 of
                   (Inl e, s3) \<Rightarrow> Some (Inl e, s3)
                 | (Inr True, s3) \<Rightarrow> Some (super_request T method url kw s3)
                 | (Inr False, s3) \<Rightarrow> Some (Inl TokenRefreshFailed, s3))
          else Some (Inr response, s1))"

text \<open>\<^verbatim>\<open>TokenRefreshSession._refresh_token\<close>.\<close>

definition refresh_token :: "'w transport \<Rightarrow> 'w session \<Rightarrow> ((exc + bool) \<times> 'w session) option" where
  "refresh_token T s =
     Option.bind (request T ''GET'' (refresh_url s) no_kwargs s)
       (\<lambda>(g, s2). Some (refresh_finish g s2))"

section \<open>APIClient.upload_file\<close>

text \<open>The chunk size, as \<^verbatim>\<open>upload_file\<close> sets it.\<close>

definition chunk_size :: nat where
  "chunk_size = 1024000"

text \<open>A file as \<open>upload_file\<close> meets it: the size that \<^verbatim>\<open>stat()\<close> reports and the bytes that
  reading it to the end gives. For a regular file that nobody writes to during the upload
  the size is the number of those bytes; for others it is not (files under \<^verbatim>\<open>/proc\<close>
  report the size 0).\<close>

record local_file =
  st_size :: nat
  content :: "byte list"

text \<open>\<^verbatim>\<open>Path(file_path).name\<close>: pathlib splits the path at the slashes, drops the empty
  components and the components \<^verbatim>\<open>.\<close>, and the name is the last component left (empty
  when none is left).\<close>

fun components :: "string \<Rightarrow> string list" where
  "components [] = [[]]"
| "components (c # cs) =
     (if c = CHR ''/'' then [] # components cs
      else (case components cs of [] \<Rightarrow> [[c]] | x # xs \<Rightarrow> (c # x) # xs))"

definition path_name :: "string \<Rightarrow> string" where
  "path_name p =
     (case filter (\<lambda>x. x \<noteq> [] \<and> x \<noteq> ''.'') (components p) of
        [] \<Rightarrow> []
      | x # xs \<Rightarrow> last (x # xs))"

definition upload_params :: "nat \<Rightarrow> nat \<Rightarrow> string \<Rightarrow> string \<Rightarrow> int \<Rightarrow> (string \<times> string) list" where
  "upload_params resumableChunkNumber resumableTotalChunks resumableIdentifier resumableFilename folder_id =
     [(''resumableChunkNumber'', str_nat resumableChunkNumber),
      (''resumableTotalChunks'', str_nat resumableTotalChunks),
      (''resumableIdentifier'', resumableIdentifier),
      (''resumableFilename'', resumableFilename),
      (''folder_id'', str_int folder_id)]"

text \<open>The options of one chunk's POST. The multipart encoding is kept structured (file
  name, chunk, content type of the part); its random boundary is left out.\<close>

definition chunk_kwargs :: "string \<Rightarrow> byte list \<Rightarrow> (string \<times> string) list \<Rightarrow> kwargs" where
  "chunk_kwargs fname chunk params =
     \<lparr>kw_headers = [(''Content-Type'', ''multipart/form-data'')],
      kw_data = Some (Multipart fname chunk ''application/octet-stream''),
      kw_params = params,
      kw_json = None\<rparr>"

text \<open>The \<^verbatim>\<open>while chunk := fh.read(chunk_size)\<close> loop. \<open>rest\<close> is what the file handle
  has not read yet, \<open>n\<close> is \<^verbatim>\<open>resumableChunkNumber\<close> and \<open>response\<close> the variable of
  that name (\<open>None\<close> while it is Python's \<^verbatim>\<open>None\<close>). The loop returns the last
  value of \<open>response\<close>.\<close>

function upload_chunks ::
  "'w transport \<Rightarrow> nat \<Rightarrow> string \<Rightarrow> nat \<Rightarrow> string \<Rightarrow> string \<Rightarrow> int \<Rightarrow> nat \<Rightarrow> response option \<Rightarrow>
     byte list \<Rightarrow> 'w session \<Rightarrow> ((exc + response option) \<times> 'w session) option" where
  "upload_chunks T cs url total_chunks ident fname folder_id n response rest s =
     (let chunk = take cs rest in
      if chunk = [] then Some (Inr response, s)
      else
        (case request T ''POST'' url
                (chunk_kwargs fname chunk (upload_params (n + 1) total_chunks ident fname folder_id)) s of
           None \<Rightarrow> None
         | Some (Inl e, s') \<Rightarrow> Some (Inl e, s')
         | Some (Inr r, s') \<Rightarrow>
             upload_chunks T cs url total_chunks ident fname folder_id (n + 1) (Some r) (drop cs rest) s'))"
  by pat_completeness auto
termination
  by (relation "measure (\<lambda>(T, cs, url, total_chunks, ident, fname, folder_id, n, response, rest, s). length rest)")
     auto

declare upload_chunks.simps [simp del]

text \<open>The \<^verbatim>\<open>with open(file_path, "rb")\<close> block of \<^verbatim>\<open>upload_file\<close> and the final
  \<^verbatim>\<open>return file_id\<close>, on the file \<open>f\<close>. The total comes from the size that \<^verbatim>\<open>stat()\<close>
  reports, through the floating-point division; the chunks come from reading.\<close>

definition upload_body ::
  "'w transport \<Rightarrow> string \<Rightarrow> string \<Rightarrow> string \<Rightarrow> int \<Rightarrow> response option \<Rightarrow> local_file \<Rightarrow>
     'w session \<Rightarrow> ((exc + jval) \<times> 'w session) option" where
  "upload_body T base_url ident fname folder_id response f s =
     (let file_id = JInt (- 1);
          total_size = st_size f
      in case py_ceil_truediv total_size chunk_size of
           Inl e \<Rightarrow> Some (Inl e, s)
         | Inr resumableTotalChunks \<Rightarrow>
             (case upload_chunks T chunk_size (base_url @ ''/files/upload'') resumableTotalChunks
                     ident fname folder_id 0 response (content f) s of
                None \<Rightarrow> None
              | Some (Inl e, s') \<Rightarrow> Some (Inl e, s')
              | Some (Inr None, s') \<Rightarrow> Some (Inr file_id, s')
              | Some (Inr (Some r), s') \<Rightarrow>
                  if ok r \<and> status_code r = 201 then
                    (case json r of
                       Inl e \<Rightarrow> Some (Inl e, s')
                     | Inr j \<Rightarrow>
                         (case py_get j ''id'' of
                            Inl e \<Rightarrow> Some (Inl e, s')
                          | Inr v \<Rightarrow> Some (Inr v, s')))
                  else Some (Inr file_id, s')))"

text \<open>\<^verbatim>\<open>APIClient.upload_file\<close>. \<open>fs\<close> is the file system: a path outside its domain
  does not exist, a path inside is a file that can be opened and read (directories and
  unreadable files, on which \<^verbatim>\<open>open\<close> raises, are left out). \<open>ident\<close> is the value of
  \<^verbatim>\<open>uuid4().hex\<close>. \<^verbatim>\<open>if folder_id:\<close> is the test \<open>folder_id \<noteq> 0\<close> on an integer. The
  result is \<^verbatim>\<open>file_id\<close>: \<open>JInt (- 1)\<close> or what \<^verbatim>\<open>response.json().get('id')\<close> gave.\<close>

definition upload_file ::
  "'w transport \<Rightarrow> string \<Rightarrow> (string \<rightharpoonup> local_file) \<Rightarrow> string \<Rightarrow> string \<Rightarrow> int \<Rightarrow> 'w session \<Rightarrow>
     ((exc + jval) \<times> 'w session) option" where
  "upload_file T base_url fs ident file_path folder_id s =
     (let file_id = JInt (- 1);
          resumableFilename = path_name file_path
      in case fs file_path of
           None \<Rightarrow> Some (Inl FileNotFoundError, s)
         | Some f \<Rightarrow>
             if folder_id \<noteq> 0 then
               (case request T ''GET'' (base_url @ ''/folders/'' @ str_int folder_id) no_kwargs s of
                  None \<Rightarrow> None
                | Some (Inl e, s1) \<Rightarrow> Some (Inl e, s1)
                | Some (Inr response, s1) \<Rightarrow>
                    if status_code response = 404 then Some (Inr file_id, s1)
                    else upload_body T base_url ident resumableFilename folder_id
                           (Some response) f s1)
             else upload_body T base_url ident resumableFilename folder_id None f s)"

section \<open>WorkflowsAPI\<close>

definition workflow_url :: "string \<Rightarrow> int \<Rightarrow> int \<Rightarrow> string" where
  "workflow_url base_url folder_id workflow_id =
     base_url @ ''/folders/'' @ str_int folder_id @ ''/workflows/'' @ str_int workflow_id"

text \<open>\<^verbatim>\<open>get_workflow\<close>: with a status other than 200 the function falls off its end and
  returns \<^verbatim>\<open>None\<close>.\<close>

definition get_workflow ::
  "'w transport \<Rightarrow> string \<Rightarrow> int \<Rightarrow> int \<Rightarrow> 'w session \<Rightarrow> ((exc + jval) \<times> 'w session) option" where
  "get_workflow T base_url folder_id workflow_id s =
     (case request T ''GET'' (workflow_url base_url folder_id workflow_id) no_kwargs s of
        None \<Rightarrow> None
      | Some (Inl e, s') \<Rightarrow> Some (Inl e, s')
      | Some (Inr response, s') \<Rightarrow>
          if status_code response = 200 then
            (case json response of Inl e \<Rightarrow> Some (Inl e, s') | Inr j \<Rightarrow> Some (Inr j, s'))
          else Some (Inr JNull, s'))"

definition update_workflow ::
  "'w transport \<Rightarrow> string \<Rightarrow> int \<Rightarrow> int \<Rightarrow> jval \<Rightarrow> 'w session \<Rightarrow> ((exc + jval) \<times> 'w session) option" where
  "update_workflow T base_url folder_id workflow_id workflow_data s =
     (case request T ''PATCH'' (workflow_url base_url folder_id workflow_id)
             (no_kwargs\<lparr>kw_json := Some workflow_data\<rparr>) s of
        None \<Rightarrow> None
      | Some (Inl e, s') \<Rightarrow> Some (Inl e, s')
      | Some (Inr response, s') \<Rightarrow>
          if status_code response = 200 then
            (case json response of Inl e \<Rightarrow> Some (Inl e, s') | Inr workflow \<Rightarrow> Some (Inr workflow, s'))
          else Some (Inl (RuntimeError ''Error updating workflow.''), s'))"

definition delete_workflow ::
  "'w transport \<Rightarrow> string \<Rightarrow> int \<Rightarrow> int \<Rightarrow> 'w session \<Rightarrow> ((exc + bool) \<times> 'w session) option" where
  "delete_workflow T base_url folder_id workflow_id s =
     (case request T ''DELETE'' (workflow_url base_url folder_id workflow_id) no_kwargs s of
        None \<Rightarrow> None
      | Some (Inl e, s') \<Rightarrow> Some (Inl e, s')
      | Some (Inr response, s') \<Rightarrow> Some (Inr (status_code response = 204), s'))"

definition run_workflow ::
  "'w transport \<Rightarrow> string \<Rightarrow> int \<Rightarrow> int \<Rightarrow> 'w session \<Rightarrow> ((exc + jval) \<times> 'w session) option" where
  "run_workflow T base_url folder_id workflow_id s =
     (case request T ''POST'' (workflow_url base_url folder_id workflow_id @ ''/run'') no_kwargs s of
        None \<Rightarrow> None
      | Some (Inl e, s') \<Rightarrow> Some (Inl e, s')
      | Some (Inr response, s') \<Rightarrow>
          if status_code response = 200 then
            (case json response of Inl e \<Rightarrow> Some (Inl e, s') | Inr workflow \<Rightarrow> Some (Inr workflow, s'))
          else Some (Inl (RuntimeError ''Error running workflow.''), s'))"

section \<open>Observations and scenarios\<close>

text \<open>The definitions of this section are not parts of the client: they name what the
  theorems observe, and the servers, files and session states of the examples.\<close>

subsection \<open>What the theorems observe\<close>

text \<open>The exact ceiling of \<open>a / b\<close>: the number of reads of \<open>b\<close> bytes that \<open>a\<close> bytes
  take.\<close>

definition ceil_div :: "nat \<Rightarrow> nat \<Rightarrow> nat" where
  "ceil_div a b = (a + b - 1) div b"

text \<open>The POST calls the session has received, in order.\<close>

definition posts :: "'w session \<Rightarrow> session_call list" where
  "posts s = filter (\<lambda>c. c_method c = ''POST'') (calls s)"

text \<open>What \<^verbatim>\<open>response.json().get('id')\<close> gives or raises.\<close>

definition parsed_id :: "response \<Rightarrow> exc + jval" where
  "parsed_id r = (case json r of Inl e \<Rightarrow> Inl e | Inr j \<Rightarrow> py_get j ''id'')"

text \<open>\<open>folder_checked T base_url folder_id s response s1\<close>: in \<open>upload_file\<close>, started in
  state \<open>s\<close>, the part before \<^verbatim>\<open>with open\<close> has gone through without an exception and
  without the early return, and has left the variable \<^verbatim>\<open>response\<close> and the state
  \<open>s1\<close>. Either the folder id is falsy and nothing was asked, or the GET of the folder
  returned a response with a status other than 404.\<close>

definition folder_checked ::
  "'w transport \<Rightarrow> string \<Rightarrow> int \<Rightarrow> 'w session \<Rightarrow> response option \<Rightarrow> 'w session \<Rightarrow> bool" where
  "folder_checked T base_url folder_id s response s1 =
     (case response of
        None \<Rightarrow> folder_id = 0 \<and> s1 = s
      | Some r \<Rightarrow>
          folder_id \<noteq> 0 \<and> status_code r \<noteq> 404 \<and>
          request T ''GET'' (base_url @ ''/folders/'' @ str_int folder_id) no_kwargs s = Some (Inr r, s1))"

subsection \<open>Sessions and servers around a refresh\<close>

text \<open>A server that answers every request, the one to \<^verbatim>\<open>auth/refresh\<close> included, with
  status 401.\<close>

definition unauthorized :: "unit transport" where
  "unauthorized w req = (Inr \<lparr>status_code = 401, json_body = None\<rparr>, w)"

text \<open>A fresh session on the server \<^verbatim>\<open>https://h\<close> with the API key \<^verbatim>\<open>key\<close>.\<close>

definition session0 :: "unit session" where
  "session0 = \<lparr>api_server_url = ''https://h'',
               headers = [''x-openrelik-refresh-token'' \<mapsto> JStr ''key''],
               world = (), wire = [], calls = []\<rparr>"

text \<open>Responses of the examples.\<close>

definition r401 :: response where
  "r401 = \<lparr>status_code = 401, json_body = None\<rparr>"

definition r500 :: response where
  "r500 = \<lparr>status_code = 500, json_body = None\<rparr>"

definition r201 :: response where
  "r201 = \<lparr>status_code = 201, json_body = Some (JObj [(''id'', JInt 77)])\<rparr>"

text \<open>A server that hands out the access token \<^verbatim>\<open>t2\<close> at \<^verbatim>\<open>auth/refresh\<close>, answers 401
  to a request without that token and 500 to a request with it.\<close>

definition token_server :: "unit transport" where
  "token_server w req =
     (if w_url req = ''https://h/auth/refresh'' then
        (Inr \<lparr>status_code = 200, json_body = Some (JObj [(''new_access_token'', JStr ''t2'')])\<rparr>, w)
      else if w_headers req ''x-openrelik-access-token'' = Some (JStr ''t2'') then
        (Inr \<lparr>status_code = 500, json_body = None\<rparr>, w)
      else (Inr r401, w))"

text \<open>A server that answers 403 at \<^verbatim>\<open>auth/refresh\<close> and 401 everywhere else.\<close>

definition locked_server :: "unit transport" where
  "locked_server w req =
     (if w_url req = ''https://h/auth/refresh'' then
        (Inr \<lparr>status_code = 403, json_body = None\<rparr>, w)
      else (Inr r401, w))"

text \<open>\<open>session0\<close> after a first GET of \<^verbatim>\<open>https://h/api/v1/x\<close> \<dots>\<close>

definition session1 :: "unit session" where
  "session1 = session0
     \<lparr>wire := [\<lparr>w_method = ''GET'', w_url = ''https://h/api/v1/x'', w_kwargs = no_kwargs,
                 w_headers = headers session0\<rparr>],
      calls := [\<lparr>c_method = ''GET'', c_url = ''https://h/api/v1/x'', c_kwargs = no_kwargs\<rparr>]\<rparr>"

text \<open>\<dots> after a GET of \<^verbatim>\<open>auth/refresh\<close> that changed no header \<dots>\<close>

definition session1r :: "unit session" where
  "session1r = session1
     \<lparr>wire := wire session1 @ [\<lparr>w_method = ''GET'', w_url = ''https://h/auth/refresh'',
                 w_kwargs = no_kwargs, w_headers = headers session0\<rparr>],
      calls := calls session1 @
         [\<lparr>c_method = ''GET'', c_url = ''https://h/auth/refresh'', c_kwargs = no_kwargs\<rparr>]\<rparr>"

text \<open>\<dots> and after one that stored the token \<^verbatim>\<open>t2\<close>.\<close>

definition session2 :: "unit session" where
  "session2 = session1r
     \<lparr>headers := (headers session0)(''x-openrelik-access-token'' \<mapsto> JStr ''t2'')\<rparr>"

subsection \<open>An upload in two chunks\<close>

text \<open>A server for uploads: 201 with the id 77 for the chunk numbered 2, 500 otherwise.\<close>

definition upload_server :: "unit transport" where
  "upload_server w req =
     (if map_of (kw_params (w_kwargs req)) ''resumableChunkNumber'' = Some ''2'' then
        (Inr \<lparr>status_code = 201, json_body = Some (JObj [(''id'', JInt 77)])\<rparr>, w)
      else (Inr \<lparr>status_code = 500, json_body = None\<rparr>, w))"

text \<open>A file of 1024001 zero bytes, one byte more than a chunk, and the disk that holds
  it.\<close>

definition two_chunks :: "byte list" where
  "two_chunks = replicate 1024001 0"

definition disk :: "string \<rightharpoonup> local_file" where
  "disk = [''/tmp/f.bin'' \<mapsto> \<lparr>st_size = 1024001, content = two_chunks\<rparr>]"

text \<open>The options of the POST of chunk \<open>k\<close> of that file, \<open>len\<close> bytes long, and the
  session after the first and after the second chunk.\<close>

definition chunk_kw :: "nat \<Rightarrow> nat \<Rightarrow> kwargs" where
  "chunk_kw k len = chunk_kwargs ''f.bin'' (replicate len 0) (upload_params k 2 ''u1'' ''f.bin'' 0)"

definition uploading :: "unit session" where
  "uploading = session0
     \<lparr>wire := [\<lparr>w_method = ''POST'', w_url = ''https://h/api/v1/files/upload'',
                 w_kwargs = chunk_kw 1 1024000, w_headers = headers session0\<rparr>],
      calls := [\<lparr>c_method = ''POST'', c_url = ''https://h/api/v1/files/upload'',
                  c_kwargs = chunk_kw 1 1024000\<rparr>]\<rparr>"

definition uploaded :: "unit session" where
  "uploaded = uploading
     \<lparr>wire := wire uploading @
               [\<lparr>w_method = ''POST'', w_url = ''https://h/api/v1/files/upload'',
                 w_kwargs = chunk_kw 2 1, w_headers = headers session0\<rparr>],
      calls := calls uploading @
               [\<lparr>c_method = ''POST'', c_url = ''https://h/api/v1/files/upload'',
                  c_kwargs = chunk_kw 2 1\<rparr>]\<rparr>"

subsection \<open>An upload of 1000001 bytes\<close>

text \<open>A server that answers 201 with the id 77 to everything, a file of 1000001 zero
  bytes, and the session after its upload.\<close>

definition accepting_server :: "unit transport" where
  "accepting_server w req = (Inr r201, w)"

definition one_chunk :: "byte list" where
  "one_chunk = replicate 1000001 0"

definition disk1 :: "string \<rightharpoonup> local_file" where
  "disk1 = [''/tmp/g.bin'' \<mapsto> \<lparr>st_size = 1000001, content = one_chunk\<rparr>]"

definition sent_one :: "unit session" where
  "sent_one = session0
     \<lparr>wire := [\<lparr>w_method = ''POST'', w_url = ''https://h/api/v1/files/upload'',
                 w_kwargs = chunk_kwargs ''g.bin'' one_chunk (upload_params 1 1 ''u1'' ''g.bin'' 0),
                 w_headers = headers session0\<rparr>],
      calls := [\<lparr>c_method = ''POST'', c_url = ''https://h/api/v1/files/upload'',
                  c_kwargs = chunk_kwargs ''g.bin'' one_chunk (upload_params 1 1 ''u1'' ''g.bin'' 0)\<rparr>]\<rparr>"

subsection \<open>Files whose declared total is not the number of their chunks\<close>

text \<open>A file as \<^verbatim>\<open>/proc/version\<close> is: the reported size 0 and 124 bytes to read; the
  options of the one POST of its upload and the session after it.\<close>

definition proc_version :: local_file where
  "proc_version = \<lparr>st_size = 0, content = replicate 124 0\<rparr>"

definition proc_disk :: "string \<rightharpoonup> local_file" where
  "proc_disk = [''/proc/version'' \<mapsto> proc_version]"

definition proc_kw :: kwargs where
  "proc_kw = chunk_kwargs ''version'' (replicate 124 0) (upload_params 1 0 ''u1'' ''version'' 0)"

definition sent_proc :: "unit session" where
  "sent_proc = session0
     \<lparr>wire := [\<lparr>w_method = ''POST'', w_url = ''https://h/api/v1/files/upload'',
                 w_kwargs = proc_kw, w_headers = headers session0\<rparr>],
      calls := [\<lparr>c_method = ''POST'', c_url = ''https://h/api/v1/files/upload'',
                  c_kwargs = proc_kw\<rparr>]\<rparr>"

text \<open>A regular file of \<open>2 ^ 34 * 1024000 + 1\<close> zero bytes.\<close>

definition huge :: local_file where
  "huge = \<lparr>st_size = 17592186044416001, content = replicate 17592186044416001 0\<rparr>"

definition huge_disk :: "string \<rightharpoonup> local_file" where
  "huge_disk = [''/data/huge.bin'' \<mapsto> huge]"

subsection \<open>Servers that fail\<close>

text \<open>A server that knows no folder, 404 to everything, and the session after the GET of
  folder 999.\<close>

definition missing_server :: "unit transport" where
  "missing_server w req = (Inr \<lparr>status_code = 404, json_body = None\<rparr>, w)"

definition asked :: "unit session" where
  "asked = session0
     \<lparr>wire := [\<lparr>w_method = ''GET'', w_url = ''https://h/api/v1/folders/999'',
                 w_kwargs = no_kwargs, w_headers = headers session0\<rparr>],
      calls := [\<lparr>c_method = ''GET'', c_url = ''https://h/api/v1/folders/999'',
                  c_kwargs = no_kwargs\<rparr>]\<rparr>"

text \<open>A server in trouble: 500 to everything.\<close>

definition failing_server :: "unit transport" where
  "failing_server w req = (Inr r500, w)"

text \<open>A server that answers its first request with 401 and cannot be reached after
  that; its state counts the answers given. \<open>session0n\<close> is a fresh session on it.\<close>

definition expired_server :: "nat transport" where
  "expired_server w req = (if w = 0 then (Inr r401, 1) else (Inl ConnectionError, w))"

definition session0n :: "nat session" where
  "session0n = \<lparr>api_server_url = ''https://h'',
                headers = [''x-openrelik-refresh-token'' \<mapsto> JStr ''key''],
                world = 0, wire = [], calls = []\<rparr>"

section \<open>The session: refresh and retry\<close>

text \<open>The equation of \<open>request\<close> in the shape of the source, with the call of
  \<^verbatim>\<open>_refresh_token\<close>.\<close>

lemma request_unfold:
  "request T method url kw s =
     (case super_request T method url kw (log_call method url kw s) of
        (Inl e, s1) \<Rightarrow> Some (Inl e, s1)
      | (Inr response, s1) \<Rightarrow>
          if status_code response = 401 then
            (case refresh_token T s1 of
               None \<Rightarrow> None
             | Some (Inl e, s3) \<Rightarrow> Some (Inl e, s3)
             | Some (Inr True, s3) \<Rightarrow> Some (super_request T method url kw s3)
             | Some (Inr False, s3) \<Rightarrow> Some (Inl TokenRefreshFailed, s3))
          else Some (Inr response, s1))"
  by (subst request.simps)
     (auto simp: refresh_token_def
           split: prod.splits sum.splits option.splits Option.bind_splits bool.splits)

lemma request_raises:
  "super_request T method url kw (log_call method url kw s) = (Inl e, s1) \<Longrightarrow>
   request T method url kw s = Some (Inl e, s1)"
  by (simp add: request_unfold)

lemma request_returns:
  "super_request T method url kw (log_call method url kw s) = (Inr r, s1) \<Longrightarrow>
   status_code r \<noteq> 401 \<Longrightarrow> request T method url kw s = Some (Inr r, s1)"
  by (simp add: request_unfold)

text \<open>
  Claim C2. When the first response has status 401, \<open>request\<close> runs the refresh step once,
  from the state \<open>s1\<close> that the first response left; when the refresh step returns
  \<^verbatim>\<open>True\<close> in state \<open>s2\<close>, the result of \<open>request\<close> is the result of one more
  \<^verbatim>\<open>super().request\<close> with the same method, URL and options from \<open>s2\<close>: its response or
  exception is returned as it is, whatever its status, and the wire carries exactly one
  more request, with the headers that the refresh left in the session.
\<close>

theorem request_401_refresh_retry:
  assumes "super_request T method url kw (log_call method url kw s) = (Inr r1, s1)"
    and "status_code r1 = 401"
    and "refresh_token T s1 = Some (Inr True, s2)"
  shows "request T method url kw s = Some (super_request T method url kw s2) \<and>
         fst (super_request T method url kw s2) =
           fst (T (world s2) \<lparr>w_method = method, w_url = url, w_kwargs = kw, w_headers = headers s2\<rparr>) \<and>
         wire (snd (super_request T method url kw s2)) =
           wire s2 @ [\<lparr>w_method = method, w_url = url, w_kwargs = kw, w_headers = headers s2\<rparr>] \<and>
         calls (snd (super_request T method url kw s2)) = calls s2"
  using assms by (simp add: request_unfold super_request_def Let_def split: prod.splits)

theorem request_401_refresh_retry_witness:
  "super_request token_server ''GET'' ''https://h/api/v1/x'' no_kwargs
      (log_call ''GET'' ''https://h/api/v1/x'' no_kwargs session0) = (Inr r401, session1) \<and>
   status_code r401 = 401 \<and>
   refresh_token token_server session1 = Some (Inr True, session2) \<and>
   request token_server ''GET'' ''https://h/api/v1/x'' no_kwargs session0 =
     Some (Inr \<lparr>status_code = 500, json_body = None\<rparr>,
           session2\<lparr>wire := wire session2 @
              [\<lparr>w_method = ''GET'', w_url = ''https://h/api/v1/x'', w_kwargs = no_kwargs,
                w_headers = headers session2\<rparr>]\<rparr>)"
proof -
  have h1: "super_request token_server ''GET'' ''https://h/api/v1/x'' no_kwargs
      (log_call ''GET'' ''https://h/api/v1/x'' no_kwargs session0) = (Inr r401, session1)"
    by (simp add: super_request_def log_call_def token_server_def session0_def session1_def)
  have h2: "status_code r401 = 401" by (simp add: r401_def)
  have h3: "refresh_token token_server session1 = Some (Inr True, session2)"
    by (simp add: refresh_token_def request_unfold super_request_def log_call_def token_server_def
          session0_def session1_def session1r_def session2_def refresh_url_def refresh_finish_def
          raise_for_status_def json_def)
  show ?thesis
    using request_401_refresh_retry [OF h1 h2 h3] h1 h2 h3
    by (simp add: super_request_def token_server_def session2_def session1r_def session1_def
          session0_def)
qed

text \<open>
  Claim C3. When the first response has status 401 and the refresh step returns
  \<^verbatim>\<open>False\<close>, \<open>request\<close> raises \<^verbatim>\<open>Exception("Token refresh failed")\<close> in the state the
  refresh step left: nothing more is sent.
\<close>

theorem request_401_refresh_failed:
  assumes "super_request T method url kw (log_call method url kw s) = (Inr r1, s1)"
    and "status_code r1 = 401"
    and "refresh_token T s1 = Some (Inr False, s2)"
  shows "request T method url kw s = Some (Inl TokenRefreshFailed, s2)"
  using assms by (simp add: request_unfold)

theorem request_401_refresh_failed_witness:
  "super_request locked_server ''GET'' ''https://h/api/v1/x'' no_kwargs
      (log_call ''GET'' ''https://h/api/v1/x'' no_kwargs session0) = (Inr r401, session1) \<and>
   status_code r401 = 401 \<and>
   refresh_token locked_server session1 = Some (Inr False, session1r) \<and>
   request locked_server ''GET'' ''https://h/api/v1/x'' no_kwargs session0 =
     Some (Inl TokenRefreshFailed, session1r)"
proof -
  have h1: "super_request locked_server ''GET'' ''https://h/api/v1/x'' no_kwargs
      (log_call ''GET'' ''https://h/api/v1/x'' no_kwargs session0) = (Inr r401, session1)"
    by (simp add: super_request_def log_call_def locked_server_def session0_def session1_def)
  have h2: "status_code r401 = 401" by (simp add: r401_def)
  have h3: "refresh_token locked_server session1 = Some (Inr False, session1r)"
    by (simp add: refresh_token_def request_unfold super_request_def log_call_def
          locked_server_def session0_def session1_def session1r_def refresh_url_def
          refresh_finish_def refresh_except_def raise_for_status_def)
  show ?thesis
    using request_401_refresh_failed [OF h1 h2 h3] h1 h2 h3 by simp
qed

subsection \<open>The refresh step re-enters itself\<close>

lemma request_unauthorized_no_result:
  assumes "request T method url kw s = Some y"
  shows "T \<noteq> unauthorized"
  using assms
proof (induct rule: request.raw_induct [rotated 1, consumes 1, case_names step])
  case (step f T m u kw s y)
  show ?case
  proof
    assume T: "T = unauthorized"
    from step(2) obtain y' s1 where "f T ''GET'' (refresh_url s1) no_kwargs s1 = Some y'"
      unfolding T
      by (auto simp: super_request_def unauthorized_def Let_def split: Option.bind_splits)
    from step(1)[OF this] T show False by simp
  qed
qed

text \<open>When the refresh endpoint answers 401, the refresh step waits for a second refresh
  step, started from the state that answer left: it has a result only if that one has.\<close>

lemma refresh_token_reenters:
  assumes "super_request T ''GET'' (refresh_url s) no_kwargs
             (log_call ''GET'' (refresh_url s) no_kwargs s) = (Inr r, s1)"
    and "status_code r = 401"
  shows "refresh_token T s = None \<longleftrightarrow> refresh_token T s1 = None"
  using assms
  by (auto simp: refresh_token_def [of T s] request_unfold
           split: option.splits sum.splits bool.splits prod.splits Option.bind_splits)

text \<open>
  Claim C10. \<open>refresh_token\<close> sends its GET through \<open>request\<close>, which on a 401 calls
  \<open>refresh_token\<close> again, and nothing bounds the depth. Against the server that answers
  401 to everything, neither the refresh step nor any request has a result: every
  level waits for the level below. (Python ends the recursion with a
  \<^verbatim>\<open>RecursionError\<close>; the refresh step does not return \<^verbatim>\<open>True\<close> or \<^verbatim>\<open>False\<close>.)
\<close>

theorem refresh_token_unbounded_recursion:
  "refresh_token T s =
     Option.bind (request T ''GET'' (refresh_url s) no_kwargs s) (\<lambda>(g, s2). Some (refresh_finish g s2)) \<and>
   refresh_token unauthorized s0 = None \<and>
   request unauthorized method url kw s0 = None"
proof -
  have "request unauthorized m u k s' = None" for m u k and s' :: "unit session"
    using request_unauthorized_no_result [of unauthorized m u k s']
    by (cases "request unauthorized m u k s'") auto
  then show ?thesis by (simp add: refresh_token_def)
qed

subsection \<open>What the refresh step sends and what it does with the answer\<close>

lemma super_request_wire:
  "wire (snd (super_request T m u kw s)) =
     wire s @ [\<lparr>w_method = m, w_url = u, w_kwargs = kw, w_headers = headers s\<rparr>]"
  by (simp add: super_request_def Let_def split: prod.splits)

lemma refresh_finish_wire: "wire (snd (refresh_finish g s)) = wire s"
  by (simp add: refresh_finish_def refresh_except_def split: sum.splits)

text \<open>Every call of \<open>request\<close> that returns has first sent the request it was called with,
  under the headers of that moment.\<close>

lemma request_wire:
  assumes "request T method url kw s = Some y"
  shows "\<exists>ws. wire (snd y) =
           wire s @ \<lparr>w_method = method, w_url = url, w_kwargs = kw, w_headers = headers s\<rparr> # ws"
  using assms
proof (induct rule: request.raw_induct [rotated 1, consumes 1, case_names step])
  case (step f T m u kw s y)
  obtain o1 s1 where sr: "super_request T m u kw (log_call m u kw s) = (o1, s1)"
    by (cases "super_request T m u kw (log_call m u kw s)")
  have w1: "wire s1 = wire s @ [\<lparr>w_method = m, w_url = u, w_kwargs = kw, w_headers = headers s\<rparr>]"
    using super_request_wire [of T m u kw "log_call m u kw s"] sr
    by (simp add: log_call_def)
  show ?case
  proof (cases o1)
    case (Inl e)
    with step(2) sr w1 show ?thesis by (intro exI[of _ "[]"]) auto
  next
    case (Inr r)
    show ?thesis
    proof (cases "status_code r = 401")
      case False
      with step(2) sr w1 Inr show ?thesis by (intro exI[of _ "[]"]) auto
    next
      case True
      with step(2) sr Inr obtain g s2 where
        g: "f T ''GET'' (refresh_url s1) no_kwargs s1 = Some (g, s2)" and
        y: "(case refresh_finish g s2 of
               (Inl e, s3) \<Rightarrow> Some (Inl e, s3)
             | (Inr True, s3) \<Rightarrow> Some (super_request T m u kw s3)
             | (Inr False, s3) \<Rightarrow> Some (Inl TokenRefreshFailed, s3)) = Some y"
        by (auto split: Option.bind_splits)
      from step(1)[OF g] obtain ws where
        ws: "wire s2 = wire s1 @ ws" by auto
      have "\<exists>ws'. wire (snd y) = wire s2 @ ws'"
        using y refresh_finish_wire [of g s2]
          super_request_wire [of T m u kw "snd (refresh_finish g s2)"]
        by (auto split: prod.splits sum.splits bool.splits)
      then obtain ws' where "wire (snd y) = wire s2 @ ws'" by blast
      with ws w1 show ?thesis by (intro exI[of _ "ws @ ws'"]) simp
    qed
  qed
qed

text \<open>The refresh step starts with a GET of \<^verbatim>\<open>auth/refresh\<close> on the server URL, sent
  under the session headers (the refresh token among them).\<close>

lemma refresh_token_sends_get:
  assumes "refresh_token T s = Some y"
  shows "\<exists>ws. wire (snd y) =
           wire s @ \<lparr>w_method = ''GET'', w_url = api_server_url s @ ''/auth/refresh'',
                     w_kwargs = no_kwargs, w_headers = headers s\<rparr> # ws"
proof -
  from assms obtain g s2 where
    g: "request T ''GET'' (refresh_url s) no_kwargs s = Some (g, s2)" and
    y: "y = refresh_finish g s2"
    by (auto simp: refresh_token_def split: Option.bind_splits)
  from request_wire [OF g] refresh_finish_wire [of g s2] y show ?thesis
    by (simp add: refresh_url_def)
qed

lemma refresh_token_success:
  assumes "request T ''GET'' (api_server_url s @ ''/auth/refresh'') no_kwargs s = Some (Inr r, s2)"
    and "status_code r < 400 \<or> 600 \<le> status_code r"
    and "json_body r = Some (JObj kvs)"
  shows "refresh_token T s =
           Some (Inr True,
                 s2\<lparr>headers := (headers s2)(''x-openrelik-access-token'' \<mapsto>
                        (case map_of kvs ''new_access_token'' of None \<Rightarrow> JNull | Some v \<Rightarrow> v))\<rparr>)"
proof -
  from assms(2) have "raise_for_status r = Inr ()"
    by (auto simp: raise_for_status_def)
  with assms(1,3) show ?thesis
    by (simp add: refresh_token_def refresh_url_def refresh_finish_def json_def
          split: option.splits)
qed

lemma refresh_token_network_error:
  assumes "request T ''GET'' (api_server_url s @ ''/auth/refresh'') no_kwargs s = Some (Inl e, s2)"
    and "is_RequestException e"
  shows "refresh_token T s = Some (Inr False, s2)"
  using assms
  by (simp add: refresh_token_def refresh_url_def refresh_finish_def refresh_except_def)

lemma refresh_token_http_error:
  assumes "request T ''GET'' (api_server_url s @ ''/auth/refresh'') no_kwargs s = Some (Inr r, s2)"
    and "400 \<le> status_code r" "status_code r < 600"
  shows "refresh_token T s = Some (Inr False, s2)"
  using assms
  by (simp add: refresh_token_def refresh_url_def refresh_finish_def refresh_except_def
        raise_for_status_def)

lemma refresh_token_passes_on:
  assumes "request T ''GET'' (api_server_url s @ ''/auth/refresh'') no_kwargs s = Some (Inl e, s2)"
    and "\<not> is_RequestException e"
  shows "refresh_token T s = Some (Inl e, s2)"
  using assms
  by (simp add: refresh_token_def refresh_url_def refresh_finish_def refresh_except_def)

text \<open>
  Claim C9 fails on the code. The refresh step is meant to turn every failure into the
  result \<^verbatim>\<open>False\<close> (\<open>refresh_token_network_error\<close>, \<open>refresh_token_http_error\<close>), but its
  GET goes through \<open>request\<close>: when the refresh endpoint answers 401, a second refresh
  step starts inside the first. Here that inner step meets a network error and returns
  \<^verbatim>\<open>False\<close>, the inner \<open>request\<close> raises \<^verbatim>\<open>Exception("Token refresh failed")\<close>, which is
  no \<^verbatim>\<open>RequestException\<close>, and the outer refresh step raises it instead of returning
  \<^verbatim>\<open>False\<close>.
\<close>

theorem refresh_token_raises:
  "map_option fst (refresh_token expired_server session0n) = Some (Inl TokenRefreshFailed) \<and>
   map_option (map w_url \<circ> wire \<circ> snd) (refresh_token expired_server session0n)
     = Some [''https://h/auth/refresh'', ''https://h/auth/refresh'']"
proof -
  let ?s1 = "snd (super_request expired_server ''GET'' ''https://h/auth/refresh'' no_kwargs
                    (log_call ''GET'' ''https://h/auth/refresh'' no_kwargs session0n))"
  let ?s2 = "snd (super_request expired_server ''GET'' ''https://h/auth/refresh'' no_kwargs
                    (log_call ''GET'' ''https://h/auth/refresh'' no_kwargs ?s1))"
  have inner: "request expired_server ''GET'' (api_server_url ?s1 @ ''/auth/refresh'') no_kwargs ?s1
                 = Some (Inl ConnectionError, ?s2)"
    by (rule request_raises)
       (simp add: super_request_def log_call_def expired_server_def session0n_def)
  have "refresh_token expired_server ?s1 = Some (Inr False, ?s2)"
    by (rule refresh_token_network_error [OF inner]) simp
  then have outer: "request expired_server ''GET'' (api_server_url session0n @ ''/auth/refresh'') no_kwargs session0n
          = Some (Inl TokenRefreshFailed, ?s2)"
    by (subst request_unfold)
       (simp add: super_request_def log_call_def expired_server_def session0n_def r401_def)
  have "refresh_token expired_server session0n = Some (Inl TokenRefreshFailed, ?s2)"
    by (rule refresh_token_passes_on [OF outer]) simp
  then show ?thesis
    by (simp add: super_request_def log_call_def expired_server_def session0n_def)
qed

section \<open>Workflows: the status checks\<close>

lemma update_workflow_raises:
  assumes "request T ''PATCH'' (workflow_url base_url folder_id workflow_id)
             (no_kwargs\<lparr>kw_json := Some workflow_data\<rparr>) s = Some (Inr r, s')"
    and "status_code r \<noteq> 200"
  shows "update_workflow T base_url folder_id workflow_id workflow_data s =
           Some (Inl (RuntimeError ''Error updating workflow.''), s')"
  using assms by (simp add: update_workflow_def)

lemma run_workflow_raises:
  assumes "request T ''POST'' (workflow_url base_url folder_id workflow_id @ ''/run'') no_kwargs s
             = Some (Inr r, s')"
    and "status_code r \<noteq> 200"
  shows "run_workflow T base_url folder_id workflow_id s =
           Some (Inl (RuntimeError ''Error running workflow.''), s')"
  using assms by (simp add: run_workflow_def)

lemma get_workflow_returns_None:
  assumes "request T ''GET'' (workflow_url base_url folder_id workflow_id) no_kwargs s = Some (Inr r, s')"
    and "status_code r \<noteq> 200"
  shows "get_workflow T base_url folder_id workflow_id s = Some (Inr JNull, s')"
  using assms by (simp add: get_workflow_def)

lemma delete_workflow_returns_bool:
  assumes "request T ''DELETE'' (workflow_url base_url folder_id workflow_id) no_kwargs s = Some (Inr r, s')"
  shows "delete_workflow T base_url folder_id workflow_id s = Some (Inr (status_code r = 204), s')"
  using assms by (simp add: delete_workflow_def)

text \<open>
  Claim C5 fails on the code. Against a server that answers 500, \<open>update_workflow\<close> and
  \<open>run_workflow\<close> raise \<^verbatim>\<open>RuntimeError\<close>, but \<open>get_workflow\<close> returns \<^verbatim>\<open>None\<close> and
  \<open>delete_workflow\<close> returns \<^verbatim>\<open>False\<close>; neither raises.
\<close>

theorem workflow_get_delete_do_not_raise:
  "map_option fst (get_workflow failing_server ''https://h/api/v1'' 1 2 session0) = Some (Inr JNull) \<and>
   map_option fst (delete_workflow failing_server ''https://h/api/v1'' 1 2 session0) = Some (Inr False) \<and>
   map_option fst (update_workflow failing_server ''https://h/api/v1'' 1 2 (JObj []) session0)
     = Some (Inl (RuntimeError ''Error updating workflow.'')) \<and>
   map_option fst (run_workflow failing_server ''https://h/api/v1'' 1 2 session0)
     = Some (Inl (RuntimeError ''Error running workflow.''))"
proof -
  have g: "request failing_server m u kw session0 =
             Some (Inr r500, snd (super_request failing_server m u kw (log_call m u kw session0)))"
    for m u kw
    by (simp add: request_unfold super_request_def failing_server_def r500_def)
  have s: "status_code r500 \<noteq> 200" "status_code r500 \<noteq> 204"
    by (simp_all add: r500_def)
  show ?thesis
    using get_workflow_returns_None [OF g s(1)] delete_workflow_returns_bool [OF g]
      update_workflow_raises [OF g s(1)] run_workflow_raises [OF g s(1)] s(2)
    by simp
qed


section \<open>The chunked upload\<close>

subsection \<open>The calls a request adds to the log\<close>

lemma super_request_calls: "calls (snd (super_request T m u kw s)) = calls s"
  by (simp add: super_request_def Let_def split: prod.splits)

lemma refresh_finish_calls: "calls (snd (refresh_finish g s)) = calls s"
  by (simp add: refresh_finish_def refresh_except_def split: sum.splits)

lemma request_calls:
  assumes "request T method url kw s = Some y"
  shows "\<exists>cs. calls (snd y) = calls s @ \<lparr>c_method = method, c_url = url, c_kwargs = kw\<rparr> # cs \<and>
              (\<forall>c\<in>set cs. c_method c = ''GET'')"
  using assms
proof (induct rule: request.raw_induct [rotated 1, consumes 1, case_names step])
  case (step f T m u kw s y)
  obtain o1 s1 where sr: "super_request T m u kw (log_call m u kw s) = (o1, s1)"
    by (cases "super_request T m u kw (log_call m u kw s)")
  have c1: "calls s1 = calls s @ [\<lparr>c_method = m, c_url = u, c_kwargs = kw\<rparr>]"
    using super_request_calls [of T m u kw "log_call m u kw s"] sr
    by (simp add: log_call_def)
  show ?case
  proof (cases o1)
    case (Inl e)
    with step(2) sr c1 show ?thesis by (intro exI[of _ "[]"]) auto
  next
    case (Inr r)
    show ?thesis
    proof (cases "status_code r = 401")
      case False
      with step(2) sr c1 Inr show ?thesis by (intro exI[of _ "[]"]) auto
    next
      case True
      with step(2) sr Inr obtain g s2 where
        g: "f T ''GET'' (refresh_url s1) no_kwargs s1 = Some (g, s2)" and
        y: "(case refresh_finish g s2 of
               (Inl e, s3) \<Rightarrow> Some (Inl e, s3)
             | (Inr True, s3) \<Rightarrow> Some (super_request T m u kw s3)
             | (Inr False, s3) \<Rightarrow> Some (Inl TokenRefreshFailed, s3)) = Some y"
        by (auto split: Option.bind_splits)
      from step(1)[OF g] obtain cs where
        cs: "calls s2 = calls s1 @ \<lparr>c_method = ''GET'', c_url = refresh_url s1, c_kwargs = no_kwargs\<rparr> # cs"
            "\<forall>c\<in>set cs. c_method c = ''GET''"
        by auto
      have "calls (snd y) = calls s2"
        using y refresh_finish_calls [of g s2]
          super_request_calls [of T m u kw "snd (refresh_finish g s2)"]
        by (auto split: prod.splits sum.splits bool.splits)
      with cs c1 show ?thesis
        by (intro exI[of _ "\<lparr>c_method = ''GET'', c_url = refresh_url s1, c_kwargs = no_kwargs\<rparr> # cs"]) auto
    qed
  qed
qed

lemma request_posts:
  assumes "request T method url kw s = Some (r, s')"
  shows "posts s' = posts s @
           (if method = ''POST'' then [\<lparr>c_method = method, c_url = url, c_kwargs = kw\<rparr>] else [])"
proof -
  from request_calls [OF assms] obtain cs where
    "calls s' = calls s @ \<lparr>c_method = method, c_url = url, c_kwargs = kw\<rparr> # cs"
    "\<forall>c\<in>set cs. c_method c = ''GET''" by auto
  then show ?thesis by (auto simp: posts_def filter_empty_conv)
qed

subsection \<open>The number of chunks\<close>

lemma ceil_div_zero [simp]: "ceil_div 0 cs = 0" "ceil_div a 0 = 0"
  by (cases "cs = 0") (simp_all add: ceil_div_def)

lemma ceil_div_step:
  assumes "0 < cs" "0 < a"
  shows "ceil_div a cs = Suc (ceil_div (a - cs) cs)"
proof (cases "a \<le> cs")
  case True
  with assms have "(a + cs - 1) div cs = 1"
    by (intro div_nat_eqI) auto
  moreover from True assms have "(a - cs + cs - 1) div cs = 0" by simp
  ultimately show ?thesis by (simp add: ceil_div_def)
next
  case False
  then have "a + cs - 1 = (a - cs + cs - 1) + cs" by simp
  then have "(a + cs - 1) div cs = Suc ((a - cs + cs - 1) div cs)"
    using assms(1) by (metis div_add_self2 Suc_eq_plus1 less_numeral_extra(3))
  then show ?thesis by (simp add: ceil_div_def)
qed

text \<open>\<open>ceil_div\<close> is the ceiling of the exact quotient.\<close>

lemma ceil_div_real:
  assumes "0 < b"
  shows "int (ceil_div a b) = \<lceil>real a / real b\<rceil>"
proof -
  define q where "q = (a + b - 1) div b"
  have up: "a \<le> q * b"
  proof -
    have "a + b - 1 < q * b + b"
      unfolding q_def using assms by (metis dividend_less_div_times mult.commute add.commute)
    with assms show ?thesis by simp
  qed
  have lo: "q * b < a + b"
  proof -
    have "q * b \<le> a + b - 1" unfolding q_def by simp
    with assms show ?thesis by simp
  qed
  have "real a / real b \<le> real q"
    using up assms by (simp add: divide_le_eq flip: of_nat_mult)
  moreover have "real q - 1 < real a / real b"
  proof -
    from lo have "real (q * b) < real (a + b)" by (simp only: of_nat_less_iff)
    with assms show ?thesis by (simp add: less_divide_eq algebra_simps)
  qed
  ultimately have "\<lceil>real a / real b\<rceil> = int q"
    by (intro ceiling_unique) simp_all
  then show ?thesis by (simp add: ceil_div_def q_def)
qed

subsection \<open>Decimal strings\<close>

lemma str_nat_small [simp]:
  "str_nat 0 = ''0''" "str_nat (Suc 0) = ''1''" "str_nat 1 = ''1''" "str_nat 2 = ''2''"
  by (simp_all add: str_nat.simps)

lemma str_int_0 [simp]: "str_int 0 = ''0''"
  by (simp add: str_int_def)

lemma str_nat_length: "0 < length (str_nat n)"
  by (subst str_nat.simps) simp

lemma digit_inject:
  assumes "a < 10" "b < 10" "''0123456789'' ! a = ''0123456789'' ! b"
  shows "a = b"
proof -
  have "distinct ''0123456789''" by simp
  moreover have "a < length ''0123456789''" "b < length ''0123456789''" using assms by simp_all
  ultimately show ?thesis using assms(3) by (simp only: nth_eq_iff_index_eq)
qed

lemma str_nat_inject: "str_nat a = str_nat b \<Longrightarrow> a = b"
proof (induction a arbitrary: b rule: str_nat.induct)
  case (1 n)
  show ?case
  proof (cases "n < 10")
    case True
    then have sn: "str_nat n = [''0123456789'' ! n]" by (subst str_nat.simps) simp
    show ?thesis
    proof (cases "b < 10")
      case b: True
      then have "str_nat b = [''0123456789'' ! b]" by (subst str_nat.simps) simp
      with sn "1.prems" True b show ?thesis by (auto intro: digit_inject)
    next
      case False
      then have "str_nat b = str_nat (b div 10) @ [''0123456789'' ! (b mod 10)]"
        by (subst str_nat.simps) simp
      with sn "1.prems" str_nat_length [of "b div 10"] show ?thesis by auto
    qed
  next
    case False
    then have sn: "str_nat n = str_nat (n div 10) @ [''0123456789'' ! (n mod 10)]"
      by (subst str_nat.simps) simp
    show ?thesis
    proof (cases "b < 10")
      case True
      then have "str_nat b = [''0123456789'' ! b]" by (subst str_nat.simps) simp
      with sn "1.prems" str_nat_length [of "n div 10"] show ?thesis by auto
    next
      case b: False
      then have "str_nat b = str_nat (b div 10) @ [''0123456789'' ! (b mod 10)]"
        by (subst str_nat.simps) simp
      with sn "1.prems" have
        e1: "str_nat (n div 10) = str_nat (b div 10)" and
        e2: "''0123456789'' ! (n mod 10) = ''0123456789'' ! (b mod 10)" by auto
      from "1.IH" [OF False e1] have d: "n div 10 = b div 10" .
      have m: "n mod 10 = b mod 10" by (rule digit_inject [OF _ _ e2]) simp_all
      from d m show ?thesis by (metis div_mult_mod_eq)
    qed
  qed
qed

subsection \<open>The loop\<close>

lemma upload_chunks_step:
  assumes "take cs rest \<noteq> []"
    and "upload_chunks T cs url total_chunks ident fname folder_id n response rest s = Some (Inr final, s')"
  shows "\<exists>r s1. request T ''POST'' url
                 (chunk_kwargs fname (take cs rest) (upload_params (n + 1) total_chunks ident fname folder_id)) s
                 = Some (Inr r, s1) \<and>
               upload_chunks T cs url total_chunks ident fname folder_id (n + 1) (Some r) (drop cs rest) s1
                 = Some (Inr final, s')"
  using assms
  by (subst (asm) upload_chunks.simps) (auto simp: Let_def split: option.splits sum.splits)

lemma upload_chunks_done:
  "take cs rest = [] \<Longrightarrow>
   upload_chunks T cs url total_chunks ident fname folder_id n response rest s = Some (Inr response, s)"
  by (simp add: upload_chunks.simps)

lemma upload_chunks_rec:
  "take cs rest \<noteq> [] \<Longrightarrow>
   request T ''POST'' url
     (chunk_kwargs fname (take cs rest) (upload_params (n + 1) total_chunks ident fname folder_id)) s
     = Some (Inr r, s1) \<Longrightarrow>
   upload_chunks T cs url total_chunks ident fname folder_id n response rest s =
   upload_chunks T cs url total_chunks ident fname folder_id (n + 1) (Some r) (drop cs rest) s1"
  by (subst upload_chunks.simps) (simp add: Let_def)

lemma upload_chunks_raised:
  assumes "take cs rest \<noteq> []"
    and "request T ''POST'' url
           (chunk_kwargs fname (take cs rest) (upload_params (n + 1) total_chunks ident fname folder_id)) s
         = Some (Inl e, s1)"
  shows "upload_chunks T cs url total_chunks ident fname folder_id n response rest s = Some (Inl e, s1)"
  using assms by (subst upload_chunks.simps) (simp add: Let_def)

lemma upload_chunks_posts:
  assumes "upload_chunks T cs url total_chunks ident fname folder_id n response rest s = Some (Inr final, s')"
  shows "posts s' = posts s @
           map (\<lambda>k. \<lparr>c_method = ''POST'', c_url = url,
                     c_kwargs = chunk_kwargs fname (take cs (drop (k * cs) rest))
                                  (upload_params (n + k + 1) total_chunks ident fname folder_id)\<rparr>)
               [0..<ceil_div (length rest) cs]"
  using assms
proof (induction T cs url total_chunks ident fname folder_id n response rest s
       rule: upload_chunks.induct)
  case (1 T cs url total_chunks ident fname folder_id n response rest s)
  show ?case
  proof (cases "take cs rest = []")
    case True
    then have "ceil_div (length rest) cs = 0"
      by auto
    moreover from True "1.prems" have "s' = s"
      by (simp add: upload_chunks_done)
    ultimately show ?thesis by simp
  next
    case False
    then have pos: "0 < cs" "0 < length rest" by auto
    let ?kw = "chunk_kwargs fname (take cs rest) (upload_params (n + 1) total_chunks ident fname folder_id)"
    from upload_chunks_step [OF False "1.prems"] obtain r s1 where
      req: "request T ''POST'' url ?kw s = Some (Inr r, s1)" and
      rec: "upload_chunks T cs url total_chunks ident fname folder_id (n + 1) (Some r) (drop cs rest) s1
              = Some (Inr final, s')"
      by auto
    have ih: "posts s' = posts s1 @
           map (\<lambda>k. \<lparr>c_method = ''POST'', c_url = url,
                     c_kwargs = chunk_kwargs fname (take cs (drop (k * cs) (drop cs rest)))
                                  (upload_params (n + 1 + k + 1) total_chunks ident fname folder_id)\<rparr>)
               [0..<ceil_div (length (drop cs rest)) cs]"
      using "1.IH" [OF refl False req refl refl rec] .
    have p1: "posts s1 = posts s @ [\<lparr>c_method = ''POST'', c_url = url, c_kwargs = ?kw\<rparr>]"
      using request_posts [OF req] by simp
    have n: "ceil_div (length rest) cs = Suc (ceil_div (length (drop cs rest)) cs)"
      using ceil_div_step [OF pos] by simp
    show ?thesis
      unfolding n ih p1
      by (simp add: map_upt_Suc add.commute [of cs] del: upt_Suc)
  qed
qed

text \<open>However the loop ends, the POST calls it has made are the first \<open>k\<close> chunks in order;
  when it ends without an exception, they are all of them.\<close>

lemma upload_chunks_posts_prefix:
  assumes "upload_chunks T cs url total_chunks ident fname folder_id n response rest s = Some (res, s')"
  shows "\<exists>k\<le>ceil_div (length rest) cs.
           posts s' = posts s @
             map (\<lambda>j. \<lparr>c_method = ''POST'', c_url = url,
                       c_kwargs = chunk_kwargs fname (take cs (drop (j * cs) rest))
                                    (upload_params (n + j + 1) total_chunks ident fname folder_id)\<rparr>)
                 [0..<k] \<and>
           (isl res \<or> k = ceil_div (length rest) cs)"
  using assms
proof (induction T cs url total_chunks ident fname folder_id n response rest s
       rule: upload_chunks.induct)
  case (1 T cs url total_chunks ident fname folder_id n response rest s)
  show ?case
  proof (cases "take cs rest = []")
    case True
    then have "ceil_div (length rest) cs = 0"
      by auto
    moreover from True "1.prems" have "s' = s"
      by (simp add: upload_chunks_done)
    ultimately show ?thesis by simp
  next
    case False
    then have pos: "0 < cs" "0 < length rest" by auto
    have n: "ceil_div (length rest) cs = Suc (ceil_div (length (drop cs rest)) cs)"
      using ceil_div_step [OF pos] by simp
    let ?kw = "chunk_kwargs fname (take cs rest) (upload_params (n + 1) total_chunks ident fname folder_id)"
    let ?c = "\<lparr>c_method = ''POST'', c_url = url, c_kwargs = ?kw\<rparr>"
    from False "1.prems" obtain o1 s1 where
      req: "request T ''POST'' url ?kw s = Some (o1, s1)"
      by (subst (asm) upload_chunks.simps) (auto simp: Let_def split: option.splits)
    have p1: "posts s1 = posts s @ [?c]"
      using request_posts [OF req] by simp
    show ?thesis
    proof (cases o1)
      case (Inl e)
      with req False "1.prems" have "res = Inl e" "s' = s1"
        by (simp_all add: upload_chunks_raised)
      with p1 show ?thesis
        unfolding n by (intro exI[of _ "Suc 0"]) simp
    next
      case (Inr r)
      with req False "1.prems" have
        rec: "upload_chunks T cs url total_chunks ident fname folder_id (n + 1) (Some r) (drop cs rest) s1
                = Some (res, s')"
        by (simp add: upload_chunks_rec)
      from "1.IH" [OF refl False req [unfolded Inr] refl refl rec] obtain k where
        k: "k \<le> ceil_div (length (drop cs rest)) cs"
           "posts s' = posts s1 @
             map (\<lambda>j. \<lparr>c_method = ''POST'', c_url = url,
                       c_kwargs = chunk_kwargs fname (take cs (drop (j * cs) (drop cs rest)))
                                    (upload_params (n + 1 + j + 1) total_chunks ident fname folder_id)\<rparr>)
                 [0..<k]"
           "isl res \<or> k = ceil_div (length (drop cs rest)) cs"
        by blast
      show ?thesis
        unfolding n using k p1
        by (intro exI[of _ "Suc k"]) (simp add: map_upt_Suc add.commute [of cs] del: upt_Suc)
    qed
  qed
qed

text \<open>The value the loop returns is the response to the POST of the last chunk.\<close>

lemma upload_chunks_final:
  assumes "rest \<noteq> []" "0 < cs"
    and "upload_chunks T cs url total_chunks ident fname folder_id n response rest s = Some (Inr final, s')"
  shows "\<exists>r s0. final = Some r \<and>
           request T ''POST'' url
             (chunk_kwargs fname (take cs (drop ((ceil_div (length rest) cs - 1) * cs) rest))
                (upload_params (n + ceil_div (length rest) cs) total_chunks ident fname folder_id)) s0
             = Some (Inr r, s')"
  using assms
proof (induction T cs url total_chunks ident fname folder_id n response rest s
       rule: upload_chunks.induct)
  case (1 T cs url total_chunks ident fname folder_id n response rest s)
  from "1.prems"(1,2) have ne: "take cs rest \<noteq> []" by auto
  from "1.prems"(1,2) have pos: "0 < cs" "0 < length rest" by auto
  let ?kw = "chunk_kwargs fname (take cs rest) (upload_params (n + 1) total_chunks ident fname folder_id)"
  from upload_chunks_step [OF ne "1.prems"(3)] obtain r s1 where
    req: "request T ''POST'' url ?kw s = Some (Inr r, s1)" and
    rec: "upload_chunks T cs url total_chunks ident fname folder_id (n + 1) (Some r) (drop cs rest) s1
            = Some (Inr final, s')"
    by auto
  have n: "ceil_div (length rest) cs = Suc (ceil_div (length (drop cs rest)) cs)"
    using ceil_div_step [OF pos] by simp
  show ?case
  proof (cases "drop cs rest = []")
    case True
    with rec have "final = Some r" "s' = s1" by (simp_all add: upload_chunks_done)
    moreover from True have "ceil_div (length rest) cs = 1" unfolding n by simp
    ultimately show ?thesis using req by auto
  next
    case False
    from "1.IH" [OF refl ne req refl refl False "1.prems"(2) rec] obtain r' s0 where
      f: "final = Some r'" and
      q: "request T ''POST'' url
             (chunk_kwargs fname
                (take cs (drop ((ceil_div (length (drop cs rest)) cs - 1) * cs) (drop cs rest)))
                (upload_params (n + 1 + ceil_div (length (drop cs rest)) cs) total_chunks ident fname folder_id)) s0
             = Some (Inr r', s')"
      by auto
    from False pos have "0 < ceil_div (length (drop cs rest)) cs"
      using ceil_div_step [of cs "length (drop cs rest)"] by simp
    then have "(ceil_div (length (drop cs rest)) cs - 1) * cs + cs
                 = (ceil_div (length rest) cs - 1) * cs"
      unfolding n by (cases "ceil_div (length (drop cs rest)) cs") simp_all
    with q f show ?thesis unfolding n by (auto simp: add.commute)
  qed
qed

text \<open>Without a 401 and without an exception of the transport the loop completes.\<close>

lemma request_completes:
  assumes "\<forall>w req. \<exists>r w'. T w req = (Inr r, w') \<and> status_code r \<noteq> 401"
  shows "\<exists>r s'. request T method url kw s = Some (Inr r, s')"
proof -
  let ?s = "log_call method url kw s"
  from assms obtain r w' where
    "T (world ?s) \<lparr>w_method = method, w_url = url, w_kwargs = kw, w_headers = headers ?s\<rparr> = (Inr r, w')"
    "status_code r \<noteq> 401"
    by blast
  then show ?thesis
    by (auto simp: request_unfold super_request_def Let_def)
qed

lemma upload_chunks_completes:
  assumes "\<forall>w req. \<exists>r w'. T w req = (Inr r, w') \<and> status_code r \<noteq> 401"
  shows "\<exists>final s'. upload_chunks T cs url total_chunks ident fname folder_id n response rest s
            = Some (Inr final, s')"
  using assms
proof (induction T cs url total_chunks ident fname folder_id n response rest s
       rule: upload_chunks.induct)
  case (1 T cs url total_chunks ident fname folder_id n response rest s)
  show ?case
  proof (cases "take cs rest = []")
    case True
    then show ?thesis by (simp add: upload_chunks_done)
  next
    case False
    let ?kw = "chunk_kwargs fname (take cs rest) (upload_params (n + 1) total_chunks ident fname folder_id)"
    from request_completes [OF "1.prems"] obtain r s1 where
      req: "request T ''POST'' url ?kw s = Some (Inr r, s1)" by blast
    from "1.IH" [OF refl False req refl refl "1.prems"] obtain final s' where
      "upload_chunks T cs url total_chunks ident fname folder_id (n + 1) (Some r) (drop cs rest) s1
         = Some (Inr final, s')" by blast
    with False req show ?thesis
      by (subst upload_chunks.simps) (simp add: Let_def)
  qed
qed

subsection \<open>The declared total: \<^verbatim>\<open>math.ceil\<close> of a floating-point quotient\<close>

lemma round_half_even_bounds:
  assumes "0 < d"
  shows "2 * (round_half_even n d * d) \<le> 2 * n + d" "2 * n \<le> 2 * (round_half_even n d * d) + d"
proof -
  define q r where "q = n div d" and "r = n mod d"
  have n: "n = q * d + r" by (simp add: q_def r_def)
  have r: "r < d" using assms by (simp add: r_def)
  have m: "round_half_even n d =
             (if 2 * r < d then q else if d < 2 * r then q + 1 else if even q then q else q + 1)"
    by (simp add: round_half_even_def q_def r_def Let_def)
  show "2 * (round_half_even n d * d) \<le> 2 * n + d"
    unfolding m using n r by (auto simp: algebra_simps)
  show "2 * n \<le> 2 * (round_half_even n d * d) + d"
    unfolding m using n r by (auto simp: algebra_simps)
qed

lemma round_half_even_exact: "0 < d \<Longrightarrow> round_half_even (k * d) d = k"
  by (simp add: round_half_even_def)

lemma scale_up_spec:
  assumes "0 < a"
  shows "2 ^ 52 * b \<le> a * 2 ^ scale_up a b t \<and> t \<le> scale_up a b t \<and>
         (scale_up a b t = t \<or> a * 2 ^ (scale_up a b t - 1) < 2 ^ 52 * b)"
  using assms
proof (induction a b t rule: scale_up.induct)
  case (1 a b t)
  show ?case
  proof (cases "2 ^ 52 * b \<le> a * 2 ^ t")
    case True
    then show ?thesis by (subst (1 2 3 4) scale_up.simps) simp
  next
    case False
    with "1.prems" have s: "scale_up a b t = scale_up a b (t + 1)"
      by (subst scale_up.simps) simp
    from "1.IH" [OF _ "1.prems"] False "1.prems" have
      ih: "2 ^ 52 * b \<le> a * 2 ^ scale_up a b (t + 1)" "t + 1 \<le> scale_up a b (t + 1)"
          "scale_up a b (t + 1) = t + 1 \<or> a * 2 ^ (scale_up a b (t + 1) - 1) < 2 ^ 52 * b"
      by auto
    from ih(3) False have "a * 2 ^ (scale_up a b (t + 1) - 1) < 2 ^ 52 * b"
      by auto
    with ih(1,2) show ?thesis unfolding s by simp
  qed
qed


lemma ceil_div_bounds:
  assumes "0 < b" "0 < a"
  shows "a \<le> ceil_div a b * b" "ceil_div a b * b < a + b" "0 < ceil_div a b"
proof -
  have "a + b - 1 < ceil_div a b * b + b"
    unfolding ceil_div_def using assms
    by (metis dividend_less_div_times mult.commute add.commute)
  with assms show "a \<le> ceil_div a b * b" by simp
  have "ceil_div a b * b \<le> a + b - 1" unfolding ceil_div_def by simp
  with assms show "ceil_div a b * b < a + b" by simp
  from \<open>a \<le> ceil_div a b * b\<close> assms show "0 < ceil_div a b"
    by (cases "ceil_div a b") auto
qed

text \<open>The ceiling of \<open>m / P\<close> for \<open>m\<close> between two multiples of \<open>P\<close>.\<close>

lemma ceil_between:
  assumes "0 < P" "(c - 1) * P < m" "m \<le> c * P" "0 < c"
  shows "(m + P - 1) div P = (c::nat)"
proof -
  obtain c' where c: "c = Suc c'" using assms(4) by (cases c) auto
  have "c' * P + 1 \<le> m" using assms(2) c by simp
  then have lo: "c * P \<le> m + P - 1" using c assms(1) by simp
  have hi: "m + P - 1 < c * P + P" using assms(1,3) by simp
  from lo hi show ?thesis
    by (intro div_nat_eqI) (simp_all add: mult.commute)
qed


lemma py_ceil_truediv_zero: "0 < b \<Longrightarrow> py_ceil_truediv 0 b = Inr 0"
  by (simp add: py_ceil_truediv_def py_truediv_def)

lemma py_ceil_truediv_defined:
  assumes "0 < b" "a < 2 ^ 53 * b"
  shows "\<exists>n. py_ceil_truediv a b = Inr n"
  using assms by (simp add: py_ceil_truediv_def py_truediv_def Let_def)

lemma ceil_div_multiple: "0 < b \<Longrightarrow> ceil_div (k * b) b = k"
proof -
  assume b: "0 < b"
  have "(k * b + (b - 1)) div b = k"
    using b by (intro div_nat_eqI) (simp_all add: mult.commute)
  with b show ?thesis by (simp add: ceil_div_def)
qed

text \<open>Up to \<open>2 ^ 34\<close> chunks the floating-point quotient has the ceiling of the exact
  one: either the size is a multiple of the chunk size and the quotient is exact, or the
  quotient is at least \<open>1 / 1024000\<close> away from the integers around it and the rounding
  error, at most \<open>2 ^ -20\<close>, is smaller than that.\<close>

lemma py_ceil_truediv_exact:
  assumes "a \<le> 2 ^ 34 * 1024000"
  shows "py_ceil_truediv a 1024000 = Inr (ceil_div a 1024000)"
proof (cases "a = 0")
  case True
  then show ?thesis by (simp add: py_ceil_truediv_zero ceil_div_def)
next
  case False
  then have a: "0 < a" by simp
  let ?b = "1024000 :: nat"
  define t where "t = scale_up a ?b 0"
  define P where "P = (2::nat) ^ t"
  define m where "m = round_half_even (a * P) ?b"
  define c where "c = ceil_div a ?b"
  have P: "0 < P" by (simp add: P_def)
  from scale_up_spec [OF a, of ?b 0] have
    s1: "2 ^ 52 * ?b \<le> a * P" and s2: "t = 0 \<or> a * 2 ^ (t - 1) < 2 ^ 52 * ?b"
    by (simp_all add: t_def P_def)
  have t18: "18 \<le> t"
  proof (rule ccontr)
    assume "\<not> 18 \<le> t"
    then have "t \<le> 17" by simp
    then have "(2::nat) ^ t \<le> 2 ^ 17" by (intro power_increasing) simp_all
    then have "a * P \<le> a * 2 ^ 17" unfolding P_def by (intro mult_le_mono2)
    also have "\<dots> \<le> (2 ^ 34 * 1024000) * 2 ^ 17" using assms by (intro mult_le_mono1)
    also have "\<dots> < 2 ^ 52 * ?b" by simp
    finally show False using s1 by simp
  qed
  have t1074: "t \<le> 1074"
  proof (rule ccontr)
    assume "\<not> t \<le> 1074"
    then have big: "73 \<le> t - 1" and "t \<noteq> 0" by simp_all
    with s2 have lt: "a * 2 ^ (t - 1) < 2 ^ 52 * ?b" by simp
    from big have "(2::nat) ^ 73 \<le> 2 ^ (t - 1)" by (intro power_increasing) simp_all
    then have "(2::nat) ^ 73 \<le> a * 2 ^ (t - 1)"
      using a by (metis One_nat_def Suc_leI le_trans mult_le_mono1 nat_mult_1)
    with lt show False by simp
  qed
  have val: "py_ceil_truediv a ?b = Inr ((m + P - 1) div P)"
  proof -
    have "a < 2 ^ 53 * ?b" using assms by simp
    moreover have "min t 1074 = t" using t1074 by simp
    moreover have "\<not> 0 \<le> - int t" using t18 by simp
    ultimately show ?thesis
      using a
      by (simp add: py_ceil_truediv_def py_truediv_def Let_def t_def [symmetric] P_def [symmetric]
            m_def [symmetric])
  qed
  have cpos: "0 < c" and cb: "a \<le> c * ?b" "c * ?b < a + ?b"
    using ceil_div_bounds [of ?b a] a by (simp_all add: c_def)
  have "(m + P - 1) div P = c"
  proof (cases "?b dvd a")
    case True
    then obtain k where k: "a = k * ?b" by (auto simp: dvd_def mult.commute)
    then have "c = k" by (simp add: c_def ceil_div_multiple)
    moreover have "m = k * P"
    proof -
      have "a * P = (k * P) * ?b" by (simp add: k)
      then show ?thesis unfolding m_def by (simp only: round_half_even_exact [of ?b "k * P"]) 
    qed
    ultimately show ?thesis using P cpos
      by (intro ceil_between) simp_all
  next
    case False
    obtain c' where c: "c = Suc c'" using cpos by (cases c) auto
    from False cb(1) have "a \<noteq> c * ?b" by (metis dvd_triv_right)
    with cb(1) have A2: "a + 1 \<le> c' * ?b + ?b" unfolding c by simp
    from cb(2) have A1: "c' * ?b + 1 \<le> a" unfolding c by simp
    from False assms have "a < 2 ^ 34 * 1024000"
      by (metis dvd_triv_right le_neq_implies_less)
    have t19: "19 \<le> t"
    proof (rule ccontr)
      assume "\<not> 19 \<le> t"
      with t18 have "t = 18" by simp
      then have "a * P < (2 ^ 34 * 1024000) * 2 ^ 18"
        unfolding P_def using \<open>a < 2 ^ 34 * 1024000\<close> by simp
      with s1 show False by simp
    qed
    then have "(2::nat) ^ 19 \<le> P" unfolding P_def by (intro power_increasing) simp_all
    then have bP: "?b < 2 * P" by simp
    define N K where "N = a * P" and "K = c' * ?b * P"
    have N1: "K + P \<le> N"
    proof -
      have "(c' * ?b + 1) * P \<le> a * P" using A1 by (intro mult_le_mono1)
      then show ?thesis by (simp add: N_def K_def algebra_simps)
    qed
    have N2: "N + P \<le> K + ?b * P"
    proof -
      have "(a + 1) * P \<le> (c' * ?b + ?b) * P" using A2 by (intro mult_le_mono1)
      then show ?thesis by (simp add: N_def K_def algebra_simps)
    qed
    have R1: "2 * (m * ?b) \<le> 2 * N + ?b" and R2: "2 * N \<le> 2 * (m * ?b) + ?b"
      using round_half_even_bounds [of ?b "a * P"] by (simp_all add: m_def N_def)
    have lo: "c' * P < m"
    proof (rule ccontr)
      assume "\<not> c' * P < m"
      then have "m * ?b \<le> (c' * P) * ?b" by (intro mult_le_mono1) simp
      then have "m * ?b \<le> K" by (simp add: K_def algebra_simps)
      with R2 N1 bP show False by simp
    qed
    have hi: "m \<le> Suc c' * P"
    proof (rule ccontr)
      assume "\<not> m \<le> Suc c' * P"
      then have "(Suc c' * P) * ?b \<le> m * ?b" by (intro mult_le_mono1) simp
      then have "K + ?b * P \<le> m * ?b" by (simp add: K_def algebra_simps)
      with R1 N2 bP show False by simp
    qed
    from lo hi show ?thesis
      using P unfolding c by (intro ceil_between) simp_all
  qed
  with val show ?thesis by (simp add: c_def)
qed

lemma scale_up_eval:
  assumes "0 < a" "2 ^ 52 * b \<le> a * 2 ^ (Suc t)" "a * 2 ^ t < 2 ^ 52 * b"
  shows "scale_up a b 0 = Suc t"
proof -
  let ?s = "scale_up a b 0"
  from scale_up_spec [OF assms(1), of b 0] have
    s1: "2 ^ 52 * b \<le> a * 2 ^ ?s" and s2: "?s = 0 \<or> a * 2 ^ (?s - 1) < 2 ^ 52 * b"
    by simp_all
  have "\<not> ?s \<le> t"
  proof
    assume "?s \<le> t"
    then have "(2::nat) ^ ?s \<le> 2 ^ t" by (intro power_increasing) simp_all
    then have "a * 2 ^ ?s \<le> a * 2 ^ t" by (intro mult_le_mono2)
    with s1 assms(3) show False by simp
  qed
  moreover have "\<not> Suc (Suc t) \<le> ?s"
  proof
    assume big: "Suc (Suc t) \<le> ?s"
    then have "Suc t \<le> ?s - 1" by simp
    then have "(2::nat) ^ Suc t \<le> 2 ^ (?s - 1)" by (intro power_increasing) simp_all
    then have "a * 2 ^ Suc t \<le> a * 2 ^ (?s - 1)" by (intro mult_le_mono2)
    moreover from big s2 have "a * 2 ^ (?s - 1) < 2 ^ 52 * b" by auto
    ultimately have "a * 2 ^ Suc t < 2 ^ 52 * b" by (rule le_less_trans)
    with assms(2) show False by (metis not_le)
  qed
  ultimately show ?thesis by simp
qed

text \<open>One byte further the quotient \<open>2 ^ 34 + 1 / 1024000\<close> rounds to \<open>2 ^ 34\<close>, and the
  ceiling is one less than the number of chunks.\<close>

lemma py_ceil_truediv_rounds_down:
  "py_ceil_truediv 17592186044416001 1024000 = Inr 17179869184"
proof -
  have "scale_up 17592186044416001 1024000 0 = Suc 17"
    by (rule scale_up_eval) simp_all
  then have t: "scale_up 17592186044416001 1024000 0 = 18" by simp
  show ?thesis
    by (simp add: py_ceil_truediv_def py_truediv_def Let_def t round_half_even_def)
qed

lemma ceil_div_rounds_up: "ceil_div 17592186044416001 1024000 = 17179869185"
  by (simp add: ceil_div_def)

lemma first_inexact_size: "(17592186044416001::nat) = 2 ^ 34 * 1024000 + 1"
  by simp

lemma py_ceil_truediv_chunk_size:
  "a \<le> 2 ^ 34 * 1024000 \<Longrightarrow> py_ceil_truediv a chunk_size = Inr (ceil_div a chunk_size)"
  by (simp add: chunk_size_def py_ceil_truediv_exact)

subsection \<open>File names\<close>

text \<open>The name of a path, as pathlib gives it: trailing slashes and \<^verbatim>\<open>.\<close> components do
  not count, \<^verbatim>\<open>..\<close> does.\<close>

lemma path_name_examples:
  "path_name ''/tmp/v/s.bin/'' = ''s.bin''"
  "path_name ''a/./b/.'' = ''b''"
  "path_name ''x/..'' = ''..''"
  "path_name ''/'' = []"
  "path_name [] = []"
  by (simp_all add: path_name_def)

subsection \<open>Around the loop\<close>

lemma upload_file_checked:
  assumes "fs file_path = Some f"
    and "folder_checked T base_url folder_id s response s1"
  shows "upload_file T base_url fs ident file_path folder_id s =
         upload_body T base_url ident (path_name file_path) folder_id response f s1"
  using assms
  by (cases response) (auto simp: upload_file_def folder_checked_def Let_def)

lemma folder_checked_posts:
  assumes "folder_checked T base_url folder_id s response s1"
  shows "posts s1 = posts s"
proof (cases response)
  case None
  with assms show ?thesis by (simp add: folder_checked_def)
next
  case (Some r)
  with assms have
    "request T ''GET'' (base_url @ ''/folders/'' @ str_int folder_id) no_kwargs s = Some (Inr r, s1)"
    by (simp add: folder_checked_def)
  from request_posts [OF this] show ?thesis by simp
qed

lemma folder_unchecked: "folder_checked T base_url 0 s None s"
  by (simp add: folder_checked_def)

lemma upload_body_result:
  assumes "py_ceil_truediv (st_size f) chunk_size = Inr total_chunks"
    and "upload_chunks T chunk_size (base_url @ ''/files/upload'') total_chunks
           ident fname folder_id 0 response (content f) s = Some (Inr final, s')"
  shows "upload_body T base_url ident fname folder_id response f s =
           Some (case final of
                   None \<Rightarrow> Inr (JInt (- 1))
                 | Some r \<Rightarrow> if status_code r = 201 then parsed_id r else Inr (JInt (- 1)), s')"
  using assms
  by (auto simp: upload_body_def Let_def ok_def parsed_id_def split: option.splits sum.splits)

lemma upload_body_state:
  assumes "py_ceil_truediv (st_size f) chunk_size = Inr total_chunks"
    and "upload_chunks T chunk_size (base_url @ ''/files/upload'') total_chunks
           ident fname folder_id 0 response (content f) s = Some (res, s')"
  shows "\<exists>v. upload_body T base_url ident fname folder_id response f s = Some (v, s')"
  using assms
  by (auto simp: upload_body_def Let_def split: option.splits sum.splits)

text \<open>When the division raises, so does the upload, before any chunk is read.\<close>

lemma upload_body_raises:
  assumes "py_ceil_truediv (st_size f) chunk_size = Inl e"
  shows "upload_body T base_url ident fname folder_id response f s = Some (Inl e, s)"
  using assms by (simp add: upload_body_def)

text \<open>On a server that never answers 401 or 404 and never fails to answer, every upload
  of an existing file of a size that the division can take comes back, after exactly
  \<open>\<lceil>n / 1024000\<rceil>\<close> POST calls for the \<open>n\<close> bytes read.\<close>

lemma upload_file_completes:
  assumes "\<forall>w req. \<exists>r w'. T w req = (Inr r, w') \<and> status_code r \<noteq> 401 \<and> status_code r \<noteq> 404"
    and "fs file_path = Some f"
    and "st_size f < 2 ^ 53 * 1024000"
  shows "\<exists>v s'. upload_file T base_url fs ident file_path folder_id s = Some (v, s') \<and>
           length (posts s') = length (posts s) + ceil_div (length (content f)) chunk_size"
proof -
  have T: "\<forall>w req. \<exists>r w'. T w req = (Inr r, w') \<and> status_code r \<noteq> 401"
    using assms(1) by blast
  obtain total_chunks where tot: "py_ceil_truediv (st_size f) chunk_size = Inr total_chunks"
    using py_ceil_truediv_defined [of chunk_size "st_size f"] assms(3)
    by (auto simp: chunk_size_def)
  obtain response s1 where fc: "folder_checked T base_url folder_id s response s1"
  proof (cases "folder_id = 0")
    case True
    then show ?thesis using that [of None s] by (simp add: folder_checked_def)
  next
    case False
    let ?u = "base_url @ ''/folders/'' @ str_int folder_id"
    let ?s = "log_call ''GET'' ?u no_kwargs s"
    from assms(1) obtain r w' where
      r: "T (world ?s) \<lparr>w_method = ''GET'', w_url = ?u, w_kwargs = no_kwargs, w_headers = headers ?s\<rparr>
            = (Inr r, w')" "status_code r \<noteq> 401" "status_code r \<noteq> 404"
      by blast
    then have "\<exists>s1. request T ''GET'' ?u no_kwargs s = Some (Inr r, s1)"
      by (simp add: request_unfold super_request_def Let_def)
    with False r(3) show ?thesis using that [of "Some r"] by (auto simp: folder_checked_def)
  qed
  from upload_chunks_completes [OF T] obtain final s' where
    loop: "upload_chunks T chunk_size (base_url @ ''/files/upload'') total_chunks
           ident (path_name file_path) folder_id 0 response (content f) s1 = Some (Inr final, s')"
    by blast
  from upload_chunks_posts [OF loop] folder_checked_posts [OF fc]
  have "length (posts s') = length (posts s) + ceil_div (length (content f)) chunk_size"
    by simp
  moreover obtain v where "upload_file T base_url fs ident file_path folder_id s = Some (v, s')"
    using upload_file_checked [of fs file_path, OF assms(2) fc] upload_body_state [OF tot loop]
    by auto
  ultimately show ?thesis by blast
qed

subsection \<open>The upload in two chunks, step by step\<close>

lemma path_name_tmp: "path_name ''/tmp/f.bin'' = ''f.bin''"
  by (simp add: path_name_def)

lemma two_chunks_total: "py_ceil_truediv 1024001 chunk_size = Inr 2"
  using py_ceil_truediv_chunk_size [of 1024001] by (simp add: ceil_div_def chunk_size_def)

lemma posts_session0: "posts session0 = []"
  by (simp add: posts_def session0_def)

lemma disk_file: "disk ''/tmp/f.bin'' = Some \<lparr>st_size = 1024001, content = two_chunks\<rparr>"
  by (simp add: disk_def)

lemma upload_scenario_first:
  "request upload_server ''POST'' ''https://h/api/v1/files/upload'' (chunk_kw 1 1024000) session0
     = Some (Inr r500, uploading)"
  by (simp add: request_unfold super_request_def log_call_def upload_server_def chunk_kw_def
        chunk_kwargs_def upload_params_def session0_def uploading_def r500_def)

lemma upload_scenario_second:
  "request upload_server ''POST'' ''https://h/api/v1/files/upload'' (chunk_kw 2 1) uploading
     = Some (Inr r201, uploaded)"
  by (simp add: request_unfold super_request_def log_call_def upload_server_def chunk_kw_def
        chunk_kwargs_def upload_params_def session0_def uploading_def uploaded_def r201_def)

lemma upload_scenario_loop:
  "upload_chunks upload_server chunk_size ''https://h/api/v1/files/upload'' 2
      ''u1'' ''f.bin'' 0 0 None two_chunks session0
   = Some (Inr (Some r201), uploaded)"
proof -
  have "upload_chunks upload_server chunk_size ''https://h/api/v1/files/upload'' 2
      ''u1'' ''f.bin'' 0 0 None two_chunks session0
    = upload_chunks upload_server chunk_size ''https://h/api/v1/files/upload'' 2
      ''u1'' ''f.bin'' 0 (0 + 1) (Some r500) (drop chunk_size two_chunks) uploading"
    using upload_scenario_first
    by (intro upload_chunks_rec) (simp_all add: two_chunks_def chunk_size_def chunk_kw_def)
  also have "\<dots> = upload_chunks upload_server chunk_size ''https://h/api/v1/files/upload'' 2
      ''u1'' ''f.bin'' 0 (0 + 1 + 1) (Some r201) (drop chunk_size (drop chunk_size two_chunks)) uploaded"
    using upload_scenario_second
    by (intro upload_chunks_rec)
       (simp_all add: two_chunks_def chunk_size_def chunk_kw_def numeral_2_eq_2)
  also have "\<dots> = Some (Inr (Some r201), uploaded)"
    by (intro upload_chunks_done) (simp add: two_chunks_def chunk_size_def)
  finally show ?thesis .
qed

subsection \<open>How many chunks are sent\<close>

text \<open>
  Claim C1, amended to the chunk size of the code. When the file exists, the part before
  the loop has passed, the total has been computed and the loop completes, \<open>upload_file\<close>
  has made exactly \<open>\<lceil>S / 1024000\<rceil>\<close> POST calls to the upload endpoint for a file of \<open>S\<close>
  bytes, and the \<open>k\<close>-th of them carries the bytes of one read of 1024000 bytes at offset
  \<open>1024000 * (k - 1)\<close>.
\<close>

theorem upload_file_chunk_count:
  assumes "fs file_path = Some f"
    and "folder_checked T base_url folder_id s response s1"
    and "py_ceil_truediv (st_size f) chunk_size = Inr total_chunks"
    and "upload_chunks T chunk_size (base_url @ ''/files/upload'') total_chunks
           ident (path_name file_path) folder_id 0 response (content f) s1 = Some (Inr final, s')"
  shows "\<exists>res new.
           upload_file T base_url fs ident file_path folder_id s = Some (res, s') \<and>
           posts s' = posts s @ new \<and>
           int (length new) = \<lceil>real (length (content f)) / 1024000\<rceil> \<and>
           map (kw_data \<circ> c_kwargs) new =
             map (\<lambda>k. Some (Multipart (path_name file_path)
                                (take 1024000 (drop (k * 1024000) (content f)))
                                ''application/octet-stream''))
                 [0..<length new] \<and>
           (\<forall>c\<in>set new. c_url c = base_url @ ''/files/upload'')"
proof -
  let ?new = "map (\<lambda>k. \<lparr>c_method = ''POST'', c_url = base_url @ ''/files/upload'',
                     c_kwargs = chunk_kwargs (path_name file_path)
                                  (take chunk_size (drop (k * chunk_size) (content f)))
                                  (upload_params (0 + k + 1) total_chunks
                                     ident (path_name file_path) folder_id)\<rparr>)
               [0..<ceil_div (length (content f)) chunk_size]"
  have "upload_file T base_url fs ident file_path folder_id s =
          Some (case final of
                   None \<Rightarrow> Inr (JInt (- 1))
                 | Some r \<Rightarrow> if status_code r = 201 then parsed_id r else Inr (JInt (- 1)), s')"
    using upload_file_checked [of fs file_path, OF assms(1,2)] upload_body_result [OF assms(3,4)]
    by simp
  moreover have "posts s' = posts s @ ?new"
    using upload_chunks_posts [OF assms(4)] folder_checked_posts [OF assms(2)] by simp
  moreover have "int (length ?new) = \<lceil>real (length (content f)) / 1024000\<rceil>"
    using ceil_div_real [of chunk_size "length (content f)"] by (simp add: chunk_size_def)
  moreover have "map (kw_data \<circ> c_kwargs) ?new =
             map (\<lambda>k. Some (Multipart (path_name file_path)
                                (take 1024000 (drop (k * 1024000) (content f)))
                                ''application/octet-stream''))
                 [0..<length ?new]"
    by (simp add: chunk_kwargs_def chunk_size_def)
  moreover have "\<forall>c\<in>set ?new. c_url c = base_url @ ''/files/upload''"
    by simp
  ultimately show ?thesis by blast
qed

theorem upload_file_chunk_count_witness:
  "disk ''/tmp/f.bin'' = Some \<lparr>st_size = 1024001, content = two_chunks\<rparr> \<and>
   folder_checked upload_server ''https://h/api/v1'' 0 session0 None session0 \<and>
   py_ceil_truediv 1024001 chunk_size = Inr 2 \<and>
   upload_chunks upload_server chunk_size (''https://h/api/v1'' @ ''/files/upload'') 2
     ''u1'' (path_name ''/tmp/f.bin'') 0 0 None two_chunks session0
     = Some (Inr (Some r201), uploaded) \<and>
   map_option snd (upload_file upload_server ''https://h/api/v1'' disk ''u1'' ''/tmp/f.bin'' 0 session0)
     = Some uploaded \<and>
   length (posts uploaded) = 2"
proof -
  let ?f = "\<lparr>st_size = 1024001, content = two_chunks\<rparr>"
  have h1: "disk ''/tmp/f.bin'' = Some ?f" by (rule disk_file)
  have h2: "folder_checked upload_server ''https://h/api/v1'' 0 session0 None session0"
    by (rule folder_unchecked)
  have h3: "py_ceil_truediv (st_size ?f) chunk_size = Inr 2"
    by (simp add: two_chunks_total)
  have h4: "upload_chunks upload_server chunk_size (''https://h/api/v1'' @ ''/files/upload'') 2
     ''u1'' (path_name ''/tmp/f.bin'') 0 0 None (content ?f) session0
     = Some (Inr (Some r201), uploaded)"
    using upload_scenario_loop by (simp add: path_name_tmp)
  have "\<lceil>real (length (content ?f)) / 1024000\<rceil> = 2"
    by (simp add: two_chunks_def ceiling_eq_iff)
  with upload_file_chunk_count [of disk "''/tmp/f.bin''", OF h1 h2 h3 h4] h1 h2 h3 h4
  show ?thesis by (auto simp: posts_session0)
qed

lemma one_chunk_loop:
  "upload_chunks accepting_server chunk_size ''https://h/api/v1/files/upload'' 1
      ''u1'' ''g.bin'' 0 0 None one_chunk session0
   = Some (Inr (Some r201), sent_one)"
proof -
  have req: "request accepting_server ''POST'' ''https://h/api/v1/files/upload''
          (chunk_kwargs ''g.bin'' (take chunk_size one_chunk) (upload_params (0 + 1) 1 ''u1'' ''g.bin'' 0)) session0
        = Some (Inr r201, sent_one)"
    by (simp add: request_unfold super_request_def log_call_def accepting_server_def r201_def
          session0_def sent_one_def one_chunk_def chunk_size_def)
  have "upload_chunks accepting_server chunk_size ''https://h/api/v1/files/upload'' 1
      ''u1'' ''g.bin'' 0 0 None one_chunk session0
    = upload_chunks accepting_server chunk_size ''https://h/api/v1/files/upload'' 1
      ''u1'' ''g.bin'' 0 (0 + 1) (Some r201) (drop chunk_size one_chunk) sent_one"
    using req by (intro upload_chunks_rec) (simp_all add: one_chunk_def chunk_size_def)
  also have "\<dots> = Some (Inr (Some r201), sent_one)"
    by (intro upload_chunks_done) (simp add: one_chunk_def chunk_size_def)
  finally show ?thesis .
qed

text \<open>Claim C1 as stated fails: a file of 1000001 bytes goes up in one POST, not in the
  two that a chunk size of 1000000 bytes would give.\<close>

theorem upload_file_chunk_count_counterexample:
  "upload_file accepting_server ''https://h/api/v1'' disk1 ''u1'' ''/tmp/g.bin'' 0 session0
     = Some (Inr (JInt 77), sent_one) \<and>
   length one_chunk = 1000001 \<and>
   length (posts sent_one) = 1 \<and>
   \<lceil>real (length one_chunk) / 1000000\<rceil> = 2"
proof -
  let ?f = "\<lparr>st_size = 1000001, content = one_chunk\<rparr>"
  have n: "py_ceil_truediv (st_size ?f) chunk_size = Inr 1"
    using py_ceil_truediv_chunk_size [of 1000001] by (simp add: ceil_div_def chunk_size_def)
  have pn: "path_name ''/tmp/g.bin'' = ''g.bin''" by (simp add: path_name_def)
  have loop: "upload_chunks accepting_server chunk_size (''https://h/api/v1'' @ ''/files/upload'') 1
      ''u1'' ''g.bin'' 0 0 None (content ?f) session0 = Some (Inr (Some r201), sent_one)"
    using one_chunk_loop by simp
  have "upload_body accepting_server ''https://h/api/v1'' ''u1'' ''g.bin'' 0 None ?f session0
          = Some (Inr (JInt 77), sent_one)"
    using upload_body_result [OF n loop]
    by (simp add: parsed_id_def json_def r201_def)
  moreover have "disk1 ''/tmp/g.bin'' = Some ?f" by (simp add: disk1_def)
  ultimately have "upload_file accepting_server ''https://h/api/v1'' disk1 ''u1'' ''/tmp/g.bin'' 0 session0
     = Some (Inr (JInt 77), sent_one)"
    using upload_file_checked [of disk1 "''/tmp/g.bin''" ?f accepting_server "''https://h/api/v1''" 0
            session0 None session0 "''u1''"]
    by (simp add: folder_unchecked pn)
  moreover have "length (posts sent_one) = 1"
    by (simp add: posts_def sent_one_def session0_def)
  moreover have "\<lceil>real (length one_chunk) / 1000000\<rceil> = 2"
    by (simp add: one_chunk_def ceiling_eq_iff)
  ultimately show ?thesis by (simp add: one_chunk_def)
qed

subsection \<open>How the chunks are numbered\<close>

text \<open>The upload of the file that reports the size 0: one chunk, numbered 1, of a declared
  total of 0.\<close>

lemma proc_version_loop:
  "upload_chunks accepting_server chunk_size ''https://h/api/v1/files/upload'' 0
      ''u1'' ''version'' 0 0 None (content proc_version) session0
   = Some (Inr (Some r201), sent_proc)"
proof -
  have req: "request accepting_server ''POST'' ''https://h/api/v1/files/upload''
          (chunk_kwargs ''version'' (take chunk_size (content proc_version))
             (upload_params (0 + 1) 0 ''u1'' ''version'' 0)) session0
        = Some (Inr r201, sent_proc)"
    by (simp add: request_unfold super_request_def log_call_def accepting_server_def r201_def
          session0_def sent_proc_def proc_kw_def proc_version_def chunk_size_def)
  have "upload_chunks accepting_server chunk_size ''https://h/api/v1/files/upload'' 0
      ''u1'' ''version'' 0 0 None (content proc_version) session0
    = upload_chunks accepting_server chunk_size ''https://h/api/v1/files/upload'' 0
      ''u1'' ''version'' 0 (0 + 1) (Some r201) (drop chunk_size (content proc_version)) sent_proc"
    using req by (intro upload_chunks_rec) (simp_all add: proc_version_def chunk_size_def)
  also have "\<dots> = Some (Inr (Some r201), sent_proc)"
    by (intro upload_chunks_done) (simp add: proc_version_def chunk_size_def)
  finally show ?thesis .
qed

text \<open>
  Claim C6 as stated fails: the declared total comes from the size that \<^verbatim>\<open>stat()\<close>
  reports, the chunks from reading. The upload of a file that reports the size 0 and has
  124 bytes to read completes with one POST, whose chunk number is 1 and whose declared
  total is 0.
\<close>

theorem upload_file_chunk_numbers_counterexample:
  "upload_file accepting_server ''https://h/api/v1'' proc_disk ''u1'' ''/proc/version'' 0 session0
     = Some (Inr (JInt 77), sent_proc) \<and>
   map (\<lambda>c. (map_of (kw_params (c_kwargs c)) ''resumableChunkNumber'',
              map_of (kw_params (c_kwargs c)) ''resumableTotalChunks'')) (posts sent_proc)
     = [(Some ''1'', Some ''0'')]"
proof -
  have n: "py_ceil_truediv (st_size proc_version) chunk_size = Inr 0"
    by (simp add: proc_version_def py_ceil_truediv_zero chunk_size_def)
  have pn: "path_name ''/proc/version'' = ''version''" by (simp add: path_name_def)
  have loop: "upload_chunks accepting_server chunk_size (''https://h/api/v1'' @ ''/files/upload'') 0
      ''u1'' ''version'' 0 0 None (content proc_version) session0
      = Some (Inr (Some r201), sent_proc)"
    using proc_version_loop by simp
  have "upload_body accepting_server ''https://h/api/v1'' ''u1'' ''version'' 0 None proc_version session0
          = Some (Inr (JInt 77), sent_proc)"
    using upload_body_result [OF n loop]
    by (simp add: parsed_id_def json_def r201_def)
  moreover have "proc_disk ''/proc/version'' = Some proc_version" by (simp add: proc_disk_def)
  ultimately have "upload_file accepting_server ''https://h/api/v1'' proc_disk ''u1'' ''/proc/version'' 0 session0
     = Some (Inr (JInt 77), sent_proc)"
    using upload_file_checked [of proc_disk "''/proc/version''" proc_version accepting_server
            "''https://h/api/v1''" 0 session0 None session0 "''u1''"]
    by (simp add: folder_unchecked pn)
  moreover have "map (\<lambda>c. (map_of (kw_params (c_kwargs c)) ''resumableChunkNumber'',
              map_of (kw_params (c_kwargs c)) ''resumableTotalChunks'')) (posts sent_proc)
     = [(Some ''1'', Some ''0'')]"
    by (simp add: posts_def sent_proc_def session0_def proc_kw_def chunk_kwargs_def
          upload_params_def)
  ultimately show ?thesis by simp
qed

text \<open>The same happens to a regular file from \<open>2 ^ 34 * 1024000 + 1\<close> bytes on, through the
  rounding of the division: its upload makes 17179869185 POST calls, and each of them
  declares a total of 17179869184.\<close>

lemma upload_huge_file:
  "\<exists>v s'. upload_file accepting_server ''https://h/api/v1'' huge_disk ''u1'' ''/data/huge.bin'' 0 session0
             = Some (v, s') \<and>
           length (posts s') = 17179869185 \<and>
           (\<forall>c\<in>set (posts s').
              map_of (kw_params (c_kwargs c)) ''resumableTotalChunks'' = Some (str_nat 17179869184))"
proof -
  have T: "\<forall>w req. \<exists>r w'. accepting_server w req = (Inr r, w') \<and> status_code r \<noteq> 401"
    by (simp add: accepting_server_def r201_def)
  have tot: "py_ceil_truediv (st_size huge) chunk_size = Inr 17179869184"
    by (simp add: huge_def chunk_size_def py_ceil_truediv_rounds_down)
  have n: "ceil_div (length (content huge)) chunk_size = 17179869185"
    by (simp add: huge_def chunk_size_def ceil_div_rounds_up)
  from upload_chunks_completes [OF T] obtain final s' where
    loop: "upload_chunks accepting_server chunk_size (''https://h/api/v1'' @ ''/files/upload'')
             17179869184 ''u1'' (path_name ''/data/huge.bin'') 0 0 None (content huge) session0
           = Some (Inr final, s')"
    by blast
  have posts: "posts s' =
           map (\<lambda>k. \<lparr>c_method = ''POST'', c_url = ''https://h/api/v1'' @ ''/files/upload'',
                     c_kwargs = chunk_kwargs (path_name ''/data/huge.bin'')
                                  (take chunk_size (drop (k * chunk_size) (content huge)))
                                  (upload_params (0 + k + 1) 17179869184 ''u1''
                                     (path_name ''/data/huge.bin'') 0)\<rparr>)
               [0..<17179869185]"
    using upload_chunks_posts [OF loop] by (simp only: n posts_session0 append_Nil)
  have hd: "huge_disk ''/data/huge.bin'' = Some huge" by (simp add: huge_disk_def)
  have "upload_file accepting_server ''https://h/api/v1'' huge_disk ''u1'' ''/data/huge.bin'' 0 session0
          = upload_body accepting_server ''https://h/api/v1'' ''u1'' (path_name ''/data/huge.bin'')
              0 None huge session0"
    by (rule upload_file_checked [of huge_disk "''/data/huge.bin''", OF hd folder_unchecked])
  with upload_body_state [OF tot loop]
  obtain v where "upload_file accepting_server ''https://h/api/v1'' huge_disk ''u1'' ''/data/huge.bin'' 0 session0
             = Some (v, s')"
    by auto
  moreover have "length (posts s') = 17179869185"
    unfolding posts by (simp only: length_map length_upt diff_zero)
  moreover have "\<forall>c\<in>set (posts s').
              map_of (kw_params (c_kwargs c)) ''resumableTotalChunks'' = Some (str_nat 17179869184)"
    unfolding posts by (auto simp: chunk_kwargs_def upload_params_def simp del: upt_Suc)
  ultimately show ?thesis by blast
qed

text \<open>
  Claim C6, amended. However the loop of an upload ends, the POST calls it has made carry
  the chunk numbers \<open>str 1, str 2, \<dots>\<close> in this order, starting at 1 and going up by one
  from call to call (\<open>str_nat_inject\<close>: different numbers have different strings), and each
  carries the same declared total, \<^verbatim>\<open>math.ceil(st_size / 1024000)\<close>. When the loop ends
  without an exception on a file whose reported size is the number of its bytes and is
  at most \<open>2 ^ 34 * 1024000\<close>, the number of calls, which is the chunk number of the last
  call, is that declared total.
\<close>

theorem upload_file_chunk_numbers:
  assumes "fs file_path = Some f"
    and "folder_checked T base_url folder_id s response s1"
    and "py_ceil_truediv (st_size f) chunk_size = Inr total_chunks"
    and "upload_chunks T chunk_size (base_url @ ''/files/upload'') total_chunks
           ident (path_name file_path) folder_id 0 response (content f) s1 = Some (res, s')"
  shows "\<exists>v new.
           upload_file T base_url fs ident file_path folder_id s = Some (v, s') \<and>
           posts s' = posts s @ new \<and>
           map (\<lambda>c. (map_of (kw_params (c_kwargs c)) ''resumableChunkNumber'',
                      map_of (kw_params (c_kwargs c)) ''resumableTotalChunks'')) new =
             map (\<lambda>k. (Some (str_nat k), Some (str_nat total_chunks))) [1..<Suc (length new)] \<and>
           length new \<le> ceil_div (length (content f)) chunk_size \<and>
           (isl res \<or> length new = ceil_div (length (content f)) chunk_size) \<and>
           (\<not> isl res \<and> st_size f = length (content f) \<and> st_size f \<le> 2 ^ 34 * 1024000 \<longrightarrow>
              length new = total_chunks)"
proof -
  let ?N = "ceil_div (length (content f)) chunk_size"
  from upload_chunks_posts_prefix [OF assms(4)] obtain k where
    k: "k \<le> ?N"
       "posts s' = posts s1 @
          map (\<lambda>j. \<lparr>c_method = ''POST'', c_url = base_url @ ''/files/upload'',
                    c_kwargs = chunk_kwargs (path_name file_path)
                                 (take chunk_size (drop (j * chunk_size) (content f)))
                                 (upload_params (0 + j + 1) total_chunks ident
                                    (path_name file_path) folder_id)\<rparr>)
              [0..<k]"
       "isl res \<or> k = ?N"
    by blast
  let ?new = "map (\<lambda>j. \<lparr>c_method = ''POST'', c_url = base_url @ ''/files/upload'',
                    c_kwargs = chunk_kwargs (path_name file_path)
                                 (take chunk_size (drop (j * chunk_size) (content f)))
                                 (upload_params (0 + j + 1) total_chunks ident
                                    (path_name file_path) folder_id)\<rparr>)
              [0..<k]"
  obtain v where "upload_file T base_url fs ident file_path folder_id s = Some (v, s')"
    using upload_file_checked [of fs file_path, OF assms(1,2)] upload_body_state [OF assms(3,4)]
    by auto
  moreover have "posts s' = posts s @ ?new"
    using k(2) folder_checked_posts [OF assms(2)] by simp
  moreover have "map (\<lambda>c. (map_of (kw_params (c_kwargs c)) ''resumableChunkNumber'',
                      map_of (kw_params (c_kwargs c)) ''resumableTotalChunks'')) ?new =
             map (\<lambda>k. (Some (str_nat k), Some (str_nat total_chunks))) [1..<Suc (length ?new)]"
  proof -
    have "[1..<Suc k] = map Suc [0..<k]"
      by (simp add: map_Suc_upt del: upt_Suc)
    then show ?thesis
      by (simp add: chunk_kwargs_def upload_params_def comp_def del: upt_Suc)
  qed
  moreover have "length ?new \<le> ?N" using k(1) by simp
  moreover have "isl res \<or> length ?new = ?N" using k(3) by simp
  moreover have "\<not> isl res \<and> st_size f = length (content f) \<and> st_size f \<le> 2 ^ 34 * 1024000 \<longrightarrow>
              length ?new = total_chunks"
  proof (intro impI, elim conjE)
    assume r: "\<not> isl res" and sz: "st_size f = length (content f)"
      and le: "st_size f \<le> 2 ^ 34 * 1024000"
    from py_ceil_truediv_chunk_size [OF le] assms(3) sz have "total_chunks = ?N" by simp
    with r k(3) show "length ?new = total_chunks" by simp
  qed
  ultimately show ?thesis by blast
qed

theorem upload_file_chunk_numbers_witness:
  "disk ''/tmp/f.bin'' = Some \<lparr>st_size = 1024001, content = two_chunks\<rparr> \<and>
   folder_checked upload_server ''https://h/api/v1'' 0 session0 None session0 \<and>
   py_ceil_truediv 1024001 chunk_size = Inr 2 \<and>
   upload_chunks upload_server chunk_size (''https://h/api/v1'' @ ''/files/upload'') 2
     ''u1'' (path_name ''/tmp/f.bin'') 0 0 None two_chunks session0
     = Some (Inr (Some r201), uploaded) \<and>
   \<not> isl (Inr (Some r201) :: exc + response option) \<and>
   (1024001::nat) = length two_chunks \<and> (1024001::nat) \<le> 2 ^ 34 * 1024000 \<and>
   map (\<lambda>c. (map_of (kw_params (c_kwargs c)) ''resumableChunkNumber'',
              map_of (kw_params (c_kwargs c)) ''resumableTotalChunks'')) (posts uploaded)
     = [(Some ''1'', Some ''2''), (Some ''2'', Some ''2'')]"
proof -
  let ?f = "\<lparr>st_size = 1024001, content = two_chunks\<rparr>"
  have h1: "disk ''/tmp/f.bin'' = Some ?f" by (rule disk_file)
  have h2: "folder_checked upload_server ''https://h/api/v1'' 0 session0 None session0"
    by (rule folder_unchecked)
  have h3: "py_ceil_truediv (st_size ?f) chunk_size = Inr 2"
    by (simp add: two_chunks_total)
  have h4: "upload_chunks upload_server chunk_size (''https://h/api/v1'' @ ''/files/upload'') 2
     ''u1'' (path_name ''/tmp/f.bin'') 0 0 None (content ?f) session0
     = Some (Inr (Some r201), uploaded)"
    using upload_scenario_loop by (simp add: path_name_tmp)
  have h5: "\<not> isl (Inr (Some r201) :: exc + response option) \<and>
            st_size ?f = length (content ?f) \<and> st_size ?f \<le> 2 ^ 34 * 1024000"
    by (simp add: two_chunks_def)
  have u: "[1..<Suc 2] = [1, 2]" by (simp add: upt_rec)
  from upload_file_chunk_numbers [of disk "''/tmp/f.bin''", OF h1 h2 h3 h4]
  obtain v new where
    a: "posts uploaded = posts session0 @ new" and
    b: "map (\<lambda>c. (map_of (kw_params (c_kwargs c)) ''resumableChunkNumber'',
                  map_of (kw_params (c_kwargs c)) ''resumableTotalChunks'')) new =
          map (\<lambda>k. (Some (str_nat k), Some (str_nat 2))) [1..<Suc (length new)]" and
    c: "\<not> isl (Inr (Some r201) :: exc + response option) \<and>
        st_size ?f = length (content ?f) \<and> st_size ?f \<le> 2 ^ 34 * 1024000 \<longrightarrow>
        length new = 2"
    by blast
  from c h5 have len: "length new = 2" by blast
  from a have "posts uploaded = new" by (simp add: posts_session0)
  with b [unfolded len u] h1 h2 h3 h4 h5 show ?thesis by simp
qed

subsection \<open>What the upload returns\<close>

text \<open>
  Claim C4. When the loop over a non-empty file completes, the value it leaves in
  \<^verbatim>\<open>response\<close> is the response \<open>r\<close> to the POST of the last chunk, and the result of
  \<open>upload_file\<close> is a function of \<open>r\<close> alone: with status 201 what
  \<^verbatim>\<open>response.json().get('id')\<close> gives (or raises), with any other status \<open>-1\<close>. No earlier
  response enters the result.
\<close>

theorem upload_file_result_last_response:
  assumes "fs file_path = Some f"
    and "content f \<noteq> []"
    and "folder_checked T base_url folder_id s response s1"
    and "py_ceil_truediv (st_size f) chunk_size = Inr total_chunks"
    and "upload_chunks T chunk_size (base_url @ ''/files/upload'') total_chunks
           ident (path_name file_path) folder_id 0 response (content f) s1 = Some (Inr final, s')"
  shows "\<exists>r s0.
           final = Some r \<and>
           request T ''POST'' (base_url @ ''/files/upload'')
             (chunk_kwargs (path_name file_path)
                (take chunk_size
                   (drop ((ceil_div (length (content f)) chunk_size - 1) * chunk_size) (content f)))
                (upload_params (ceil_div (length (content f)) chunk_size) total_chunks
                   ident (path_name file_path) folder_id)) s0
             = Some (Inr r, s') \<and>
           upload_file T base_url fs ident file_path folder_id s =
             Some (if status_code r = 201 then parsed_id r else Inr (JInt (- 1)), s')"
proof -
  have cs: "0 < chunk_size" by (simp add: chunk_size_def)
  from upload_chunks_final [OF assms(2) cs assms(5)] obtain r s0 where
    r: "final = Some r" and
    q: "request T ''POST'' (base_url @ ''/files/upload'')
             (chunk_kwargs (path_name file_path)
                (take chunk_size
                   (drop ((ceil_div (length (content f)) chunk_size - 1) * chunk_size) (content f)))
                (upload_params (0 + ceil_div (length (content f)) chunk_size) total_chunks
                   ident (path_name file_path) folder_id)) s0
             = Some (Inr r, s')"
    by blast
  have "upload_file T base_url fs ident file_path folder_id s =
             Some (if status_code r = 201 then parsed_id r else Inr (JInt (- 1)), s')"
    using upload_file_checked [of fs file_path, OF assms(1,3)] upload_body_result [OF assms(4,5)] r
    by simp
  with r q show ?thesis by auto
qed

theorem upload_file_result_last_response_witness:
  "disk ''/tmp/f.bin'' = Some \<lparr>st_size = 1024001, content = two_chunks\<rparr> \<and>
   two_chunks \<noteq> [] \<and>
   folder_checked upload_server ''https://h/api/v1'' 0 session0 None session0 \<and>
   py_ceil_truediv 1024001 chunk_size = Inr 2 \<and>
   upload_chunks upload_server chunk_size (''https://h/api/v1'' @ ''/files/upload'') 2
     ''u1'' (path_name ''/tmp/f.bin'') 0 0 None two_chunks session0
     = Some (Inr (Some r201), uploaded) \<and>
   upload_file upload_server ''https://h/api/v1'' disk ''u1'' ''/tmp/f.bin'' 0 session0
     = Some (Inr (JInt 77), uploaded)"
proof -
  let ?f = "\<lparr>st_size = 1024001, content = two_chunks\<rparr>"
  have h1: "disk ''/tmp/f.bin'' = Some ?f" by (rule disk_file)
  have h2: "content ?f \<noteq> []" by (simp add: two_chunks_def)
  have h3: "folder_checked upload_server ''https://h/api/v1'' 0 session0 None session0"
    by (rule folder_unchecked)
  have h4: "py_ceil_truediv (st_size ?f) chunk_size = Inr 2"
    by (simp add: two_chunks_total)
  have h5: "upload_chunks upload_server chunk_size (''https://h/api/v1'' @ ''/files/upload'') 2
     ''u1'' (path_name ''/tmp/f.bin'') 0 0 None (content ?f) session0
     = Some (Inr (Some r201), uploaded)"
    using upload_scenario_loop by (simp add: path_name_tmp)
  have "parsed_id r201 = Inr (JInt 77)" "status_code r201 = 201"
    by (simp_all add: parsed_id_def json_def r201_def)
  with upload_file_result_last_response [of disk "''/tmp/f.bin''", OF h1 h2 h3 h4 h5]
    h1 h2 h3 h4 h5
  show ?thesis by auto
qed

subsection \<open>Uploads that do not start\<close>

text \<open>
  Claim C7. With a folder id that is supplied (truthy) and a folder GET that returns
  status 404, \<open>upload_file\<close> returns \<open>-1\<close>, raises nothing, and ends in the state the GET
  left: no POST call was made.
\<close>

theorem upload_file_folder_not_found:
  assumes "fs file_path = Some f"
    and "folder_id \<noteq> 0"
    and "request T ''GET'' (base_url @ ''/folders/'' @ str_int folder_id) no_kwargs s = Some (Inr r, s1)"
    and "status_code r = 404"
  shows "upload_file T base_url fs ident file_path folder_id s = Some (Inr (JInt (- 1)), s1) \<and>
         posts s1 = posts s"
  using assms request_posts [OF assms(3)]
  by (simp add: upload_file_def Let_def)

theorem upload_file_folder_not_found_witness:
  "disk ''/tmp/f.bin'' = Some \<lparr>st_size = 1024001, content = two_chunks\<rparr> \<and>
   (999::int) \<noteq> 0 \<and>
   request missing_server ''GET'' (''https://h/api/v1'' @ ''/folders/'' @ str_int 999) no_kwargs session0
     = Some (Inr \<lparr>status_code = 404, json_body = None\<rparr>, asked) \<and>
   status_code \<lparr>status_code = 404, json_body = None\<rparr> = 404 \<and>
   upload_file missing_server ''https://h/api/v1'' disk ''u1'' ''/tmp/f.bin'' 999 session0
     = Some (Inr (JInt (- 1)), asked) \<and>
   posts asked = []"
proof -
  have h1: "disk ''/tmp/f.bin'' = Some \<lparr>st_size = 1024001, content = two_chunks\<rparr>"
    by (rule disk_file)
  have h2: "(999::int) \<noteq> 0" by simp
  have h3: "request missing_server ''GET'' (''https://h/api/v1'' @ ''/folders/'' @ str_int 999) no_kwargs session0
     = Some (Inr \<lparr>status_code = 404, json_body = None\<rparr>, asked)"
    by (simp add: request_unfold super_request_def log_call_def missing_server_def session0_def
          asked_def str_int_def str_nat.simps)
  have h4: "status_code \<lparr>status_code = 404, json_body = None\<rparr> = 404" by simp
  from upload_file_folder_not_found [of disk "''/tmp/f.bin''", OF h1 h2 h3 h4] h1 h3
  show ?thesis by (simp add: posts_session0)
qed

text \<open>
  Claim C8. For a path that does not exist \<open>upload_file\<close> raises
  \<^verbatim>\<open>FileNotFoundError\<close> in the state it started in: the wire and the call log are
  untouched, the folder check included.
\<close>

theorem upload_file_not_found:
  assumes "fs file_path = None"
  shows "upload_file T base_url fs ident file_path folder_id s = Some (Inl FileNotFoundError, s)"
  using assms by (simp add: upload_file_def Let_def)

theorem upload_file_not_found_witness:
  "Map.empty ''/tmp/f.bin'' = (None :: local_file option) \<and>
   upload_file missing_server ''https://h/api/v1'' Map.empty ''u1'' ''/tmp/f.bin'' 999 session0
     = Some (Inl FileNotFoundError, session0)"
  using upload_file_not_found [of Map.empty "''/tmp/f.bin''" missing_server "''https://h/api/v1''" "''u1''" 999 session0]
  by simp

end
